theory Spec2Isabelle
  imports Complex_Main
begin

section \<open>Python strings\<close>

text \<open>
  A Python \<open>str\<close> is a sequence of Unicode code points and \<open>len\<close> counts code points.
  The phrases of the program are Chinese, so a string is modelled as the list of its code
  points; an ASCII literal of the source is written \<open>ascii ''...''\<close>.
\<close>

type_synonym ustr = "nat list"

definition ascii :: "string \<Rightarrow> ustr" where
  "ascii s = map of_char s"

text \<open>
  \<open>str.strip()\<close>, \<open>str.isspace()\<close> and the \<open>\s\<close> of \<open>re\<close> share one table of white space
  (CPython's \<open>_PyUnicode_IsWhitespace\<close>).
\<close>

definition whitespace_table :: "nat list" where
  "whitespace_table = [9, 10, 11, 12, 13, 28, 29, 30, 31, 32, 133, 160, 5760,
      8192, 8193, 8194, 8195, 8196, 8197, 8198, 8199, 8200, 8201, 8202,
      8232, 8233, 8239, 8287, 12288]"

definition is_space :: "nat \<Rightarrow> bool" where
  "is_space c \<longleftrightarrow> c \<in> set whitespace_table"

definition strip :: "ustr \<Rightarrow> ustr" where
  "strip s = rev (dropWhile is_space (rev (dropWhile is_space s)))"

text \<open>
  The \<open>\d\<close> of \<open>re\<close> on a \<open>str\<close> pattern matches every decimal digit of Unicode (category
  Nd), and \<open>int\<close> reads each of them by its decimal value. The digits come in blocks of
  ten consecutive code points, zero first; the table lists the zero of each block
  (Unicode 14, the table of CPython 3.11).
\<close>

definition decimal_zeros :: "nat list" where
  "decimal_zeros = [48, 1632, 1776, 1984, 2406, 2534, 2662, 2790, 2918, 3046, 3174, 3302,
     3430, 3558, 3664, 3792, 3872, 4160, 4240, 6112, 6160, 6470, 6608, 6784, 6800, 6992,
     7088, 7232, 7248, 42528, 43216, 43264, 43472, 43504, 43600, 44016, 65296, 66720,
     68912, 69734, 69872, 69942, 70096, 70384, 70736, 70864, 71248, 71360, 71472, 71904,
     72016, 72784, 73040, 73120, 92768, 92864, 93008, 120782, 120792, 120802, 120812,
     120822, 123200, 123632, 125264, 130032]"

definition decimal_value :: "nat \<Rightarrow> nat option" where
  "decimal_value c =
     (case find (\<lambda>z. z \<le> c \<and> c < z + 10) decimal_zeros of
        None \<Rightarrow> None
      | Some z \<Rightarrow> Some (c - z))"

definition is_decimal :: "nat \<Rightarrow> bool" where
  "is_decimal c \<longleftrightarrow> decimal_value c \<noteq> None"

text \<open>
  \<open>str(n)\<close> of an integer, as the f-strings of the source render it. (CPython refuses to
  render an integer of more than 4300 digits; the program renders return codes, lengths
  and the counts that \<open>int\<close> has accepted, which have at most 4300 digits.)
\<close>

function digits_of_nat :: "nat \<Rightarrow> ustr" where
  "digits_of_nat n = (if n < 10 then [48 + n] else digits_of_nat (n div 10) @ [48 + n mod 10])"
  by pat_completeness auto
termination
  by (relation "measure id") auto

declare digits_of_nat.simps [simp del]

definition str_int :: "int \<Rightarrow> ustr" where
  "str_int i = (if i < 0 then 45 # digits_of_nat (nat (- i)) else digits_of_nat (nat i))"

text \<open>
  The exceptions of the model. Both raises that the program does not catch on every path
  are \<open>ValueError\<close>s of the standard library; the argument is the message.
\<close>

datatype py_error = ValueError string

text \<open>
  \<open>int(s)\<close> on a non-empty run of decimal digits. Python's integers are unbounded, but
  the conversion from a string is not: CPython (3.11, default settings) raises
  \<open>ValueError\<close> when the string has more than 4300 digits, leading zeros counted.
\<close>

definition MAX_STR_DIGITS :: nat where
  "MAX_STR_DIGITS = 4300"

definition int_limit_error :: "nat \<Rightarrow> py_error" where
  "int_limit_error n =
     ValueError (''Exceeds the limit (4300 digits) for integer string conversion: value has ''
       @ map char_of (digits_of_nat n)
       @ '' digits; use sys.set_int_max_str_digits() to increase the limit'')"

definition digits_value :: "ustr \<Rightarrow> int" where
  "digits_value ds =
     foldl (\<lambda>a c. 10 * a + int (case decimal_value c of None \<Rightarrow> 0 | Some d \<Rightarrow> d)) 0 ds"

definition int_of_digits :: "ustr \<Rightarrow> py_error + int" where
  "int_of_digits ds =
     (if length ds > MAX_STR_DIGITS then Inl (int_limit_error (length ds))
      else Inr (digits_value ds))"

definition starts_with :: "ustr \<Rightarrow> ustr \<Rightarrow> bool" where
  "starts_with pre s \<longleftrightarrow> take (length pre) s = pre"

text \<open>
  \<open>s.replace(old, new)\<close>: every occurrence of \<open>old\<close>, left to right, without overlap. The
  alias keys of the program are never empty; for an empty \<open>old\<close> the model returns \<open>s\<close>.
\<close>

fun replace :: "ustr \<Rightarrow> ustr \<Rightarrow> ustr \<Rightarrow> ustr" where
  "replace old new [] = []"
| "replace old new (c # cs) =
     (if old \<noteq> [] \<and> starts_with old (c # cs)
      then new @ replace old new (drop (length old) (c # cs))
      else c # replace old new cs)"

section \<open>The command processor (\<open>lanvi_input.py\<close>)\<close>

definition CLEAR_BACKSPACE_MAX :: int where
  "CLEAR_BACKSPACE_MAX = 200"

definition HISTORY_MAX_LEN :: nat where
  "HISTORY_MAX_LEN = 300"

text \<open>
  The result's field \<open>output\<close> (here \<open>output_obj\<close>) is an untyped Python object: a
  string, a pair of a tag and a count, or (from the command channel) a dictionary with
  \<open>ok\<close> and \<open>message\<close>. The empty string \<open>Str []\<close> is what the specification calls
  \<open>Empty\<close>.
\<close>

datatype py_object = Str ustr | Tup string int | Dict bool ustr

record command_result =
  handled :: bool
  display_text :: ustr
  output_obj :: py_object

definition CommandResult :: "bool \<Rightarrow> ustr \<Rightarrow> py_object \<Rightarrow> command_result" where
  "CommandResult h d out = \<lparr>handled = h, display_text = d, output_obj = out\<rparr>"

text \<open>
  The processor's state. \<open>history\<close> is a \<open>deque(maxlen=300)\<close>, oldest entry first. The
  dictionaries \<open>alias\<close> (here \<open>alias_map\<close>) and \<open>punc_map\<close> are set once in \<open>__init__\<close>
  and never written again; they are constants, kept in insertion order, which is the
  order in which \<open>normalize\<close> applies the aliases.
\<close>

record processor =
  paused :: bool
  history :: "ustr list"

definition init_processor :: processor where
  "init_processor = \<lparr>paused = False, history = []\<rparr>"

definition alias_map :: "(ustr \<times> ustr) list" where
  "alias_map = [([35910, 21495], [36887, 21495]),
            ([37117, 22909], [36887, 21495]),
            ([25454, 21495], [21477, 21495]),
            ([32858, 22909], [21477, 21495]),
            ([21477, 28857], [21477, 21495])]"

text \<open>Comma, full stop, question mark, exclamation mark, colon, semicolon, enumeration comma.\<close>

definition punc_map :: "(ustr \<times> ustr) list" where
  "punc_map = [([36887, 21495], [65292]),
               ([21477, 21495], [12290]),
               ([38382, 21495], [65311]),
               ([24863, 21497, 21495], [65281]),
               ([20882, 21495], [65306]),
               ([20998, 21495], [65307]),
               ([39039, 21495], [12289])]"

definition pause_phrases :: "ustr list" where
  "pause_phrases = [ [26242, 20572, 36755, 20837], [26242, 20572], [20572, 27490, 36755, 20837] ]"

definition resume_phrases :: "ustr list" where
  "resume_phrases = [ [32487, 32493, 36755, 20837], [32487, 32493], [24674, 22797, 36755, 20837] ]"

definition enter_phrases :: "ustr list" where
  "enter_phrases = [ [25442, 34892], [22238, 36710], [19979, 19968, 34892], ascii ''enter'',
     ascii ''ENTER'', [22238, 36710, 38190], ascii ''enter'' @ [38190], ascii ''Enter'']"

definition tab_phrases :: "ustr list" where
  "tab_phrases = [ascii ''tab'', ascii ''TAB'', [21046, 34920, 31526], [21046, 34920],
     ascii ''tab'' @ [38190], ascii ''TAB'' @ [38190], ascii ''Tab'']"

definition esc_phrases :: "ustr list" where
  "esc_phrases = [ascii ''esc'', ascii ''ESC'', ascii ''escape'', ascii ''ESC'' @ [38190],
     ascii ''esc'' @ [38190], ascii ''Escape'']"

text \<open>The four phrases for "delete / withdraw / undo the last sentence".\<close>

definition undo_phrases :: "ustr list" where
  "undo_phrases = [ [21024, 38500, 19978, 19968, 21477], [25764, 22238, 19978, 19968, 21477],
     [25764, 38144, 19978, 19968, 21477], [21024, 25481, 19978, 19968, 21477] ]"

definition clear_phrases :: "ustr list" where
  "clear_phrases = [ [28165, 31354], [28165, 38500, 20840, 37096], [20840, 37096, 21024, 38500] ]"

text \<open>The display texts of \<open>handle\<close>, with their pictographs, as code points.\<close>

definition msg_paused :: ustr where
  "msg_paused = [9208, 32, 24050, 26242, 20572, 36755, 20837]"

definition msg_resumed :: ustr where
  "msg_resumed = [9654, 65039, 32, 24050, 24674, 22797, 36755, 20837]"

definition msg_while_paused :: ustr where
  "msg_while_paused = [9208, 40, 26242, 20572, 20013, 41, 32]"

definition msg_enter :: ustr where
  "msg_enter = [8617, 65039, 32, 25442, 34892]"

definition msg_tab :: ustr where
  "msg_tab = [8633, 32] @ ascii ''TAB''"

definition msg_esc :: ustr where
  "msg_esc = [9099, 32] @ ascii ''ESC''"

definition msg_punc :: ustr where
  "msg_punc = [9000, 65039, 32]"

definition msg_nothing_to_delete :: ustr where
  "msg_nothing_to_delete =
     [9888, 65039, 32, 27809, 26377, 21487, 21024, 38500, 30340, 20869, 23481]"

definition msg_undo :: ustr where
  "msg_undo = [9003, 32, 21024, 38500, 19978, 19968, 21477, 65306]"

definition msg_delete_pre :: ustr where
  "msg_delete_pre = [9003, 32, 21024, 38500, 32]"

definition msg_delete_post :: ustr where
  "msg_delete_post = [32, 20010, 23383]"

definition msg_clear :: ustr where
  "msg_clear = [129529, 32, 28165, 31354]"

definition normalize_text :: "ustr \<Rightarrow> ustr" where
  "normalize_text text = foldl (\<lambda>t (k, v). replace k v t) (strip text) alias_map"

text \<open>
  \<open>re.search(r"(delete|backspace)\s*(\d+)\s*(unit)?", text)\<close>, the two keywords being
  U+5220 U+9664 and U+9000 U+683C. \<open>re.search\<close> tries the pattern at position 0, 1, 2, ...
  and returns the first position where it matches. At one position the pattern matches when
  a keyword stands there, followed by any white space and at least one digit: white space
  and digits are disjoint, so the greedy \<open>\s*\<close> takes the whole run of white space, and
  what follows \<open>(\d+)\<close> can match the empty string, so the greedy group 2 is the whole run
  of digits.
\<close>

definition kw_delete :: ustr where
  "kw_delete = [21024, 38500]"

definition kw_backspace :: ustr where
  "kw_backspace = [36864, 26684]"

definition match_delete_at :: "ustr \<Rightarrow> ustr option" where
  "match_delete_at t =
     (if starts_with kw_delete t \<or> starts_with kw_backspace t then
        (let ds = takeWhile is_decimal (dropWhile is_space (drop 2 t))
         in if ds = [] then None else Some ds)
      else None)"

fun re_search_delete :: "ustr \<Rightarrow> ustr option" where
  "re_search_delete [] = None"
| "re_search_delete (c # cs) =
     (case match_delete_at (c # cs) of
        Some ds \<Rightarrow> Some ds
      | None \<Rightarrow> re_search_delete cs)"

text \<open>
  \<open>return int(m.group(2)) if m else None\<close>: the search gives group 2 of the leftmost
  match, and \<open>int\<close> may raise on it.
\<close>

definition parse_delete_n :: "ustr \<Rightarrow> py_error + int option" where
  "parse_delete_n text =
     (case re_search_delete text of
        None \<Rightarrow> Inr None
      | Some ds \<Rightarrow> (case int_of_digits ds of Inl e \<Rightarrow> Inl e | Inr n \<Rightarrow> Inr (Some n)))"

text \<open>
  \<open>handle\<close> mutates \<open>self.paused\<close> and \<open>self.history\<close>; the model returns the new state.
  The one exception that can leave \<open>handle\<close> is that of \<open>int\<close> in \<open>parse_delete_n\<close>; it is
  raised before any field is written on that path, so the error needs no state.
\<close>

definition handle :: "processor \<Rightarrow> ustr \<Rightarrow> py_error + processor \<times> command_result" where
  "handle p raw_text =
     (let text = normalize_text raw_text in
      if text \<in> set pause_phrases then
        Inr (p\<lparr>paused := True\<rparr>, CommandResult True msg_paused (Str []))
      else if text \<in> set resume_phrases then
        Inr (p\<lparr>paused := False\<rparr>, CommandResult True msg_resumed (Str []))
      else if paused p then
        Inr (p, CommandResult True (msg_while_paused @ raw_text) (Str []))
      else if text \<in> set enter_phrases then
        Inr (p, CommandResult True msg_enter (Tup ''__ENTER__'' 1))
      else if text \<in> set tab_phrases then
        Inr (p, CommandResult True msg_tab (Tup ''__TAB__'' 1))
      else if text \<in> set esc_phrases then
        Inr (p, CommandResult True msg_esc (Tup ''__ESC__'' 1))
      else
        (case map_of punc_map text of
           Some symbol \<Rightarrow> Inr (p, CommandResult True (msg_punc @ text) (Str symbol))
         | None \<Rightarrow>
            if text \<in> set undo_phrases then
              (if history p = [] then
                 Inr (p, CommandResult True msg_nothing_to_delete (Str []))
               else
                 Inr (p\<lparr>history := butlast (history p)\<rparr>,
                      CommandResult True (msg_undo @ last (history p))
                        (Tup ''__BACKSPACE__'' (int (length (last (history p)))))))
            else
              (case parse_delete_n text of
                 Inl e \<Rightarrow> Inl e
               | Inr (Some n) \<Rightarrow>
                   Inr (p, CommandResult True (msg_delete_pre @ str_int n @ msg_delete_post)
                             (Tup ''__BACKSPACE__'' n))
               | Inr None \<Rightarrow>
                   if text \<in> set clear_phrases then
                     Inr (p, CommandResult True msg_clear
                               (Tup ''__BACKSPACE__'' CLEAR_BACKSPACE_MAX))
                   else
                     Inr (p, CommandResult False raw_text (Str raw_text)))))"

text \<open>
  \<open>deque.append\<close> on a deque with \<open>maxlen\<close>: the element goes to the right end, and when
  the deque is then longer than \<open>maxlen\<close> its leftmost element is dropped.
\<close>

definition deque_append :: "nat \<Rightarrow> 'a list \<Rightarrow> 'a \<Rightarrow> 'a list" where
  "deque_append maxlen d x = (let d' = d @ [x] in if length d' > maxlen then tl d' else d')"

definition record_output :: "processor \<Rightarrow> ustr \<Rightarrow> processor" where
  "record_output p out =
     (if out \<noteq> [] \<and> out \<noteq> [10] then
        p\<lparr>history := deque_append HISTORY_MAX_LEN (history p)
                        (if length out > 4000 then take 4000 out else out)\<rparr>
      else p)"

section \<open>The input injector and the input service\<close>

text \<open>
  The injector is modelled by the calls that reach the operating system, in order. The
  model follows the clipboard variant of the module (the branch taken when the platform
  is not Windows): \<open>send_unicode_text\<close> does nothing on an empty string and swallows its
  own failures, \<open>backspace\<close> does nothing unless \<open>n > 0\<close>.
\<close>

datatype inj_event = PasteText ustr | KeyBackspace int | KeyEnter | KeyTab | KeyEsc

definition send_unicode_text :: "ustr \<Rightarrow> inj_event list" where
  "send_unicode_text text = (if text = [] then [] else [PasteText text])"

definition backspace :: "int \<Rightarrow> inj_event list" where
  "backspace n = (if n > 0 then [KeyBackspace n] else [])"

definition press_enter :: "inj_event list" where
  "press_enter = [KeyEnter]"

definition press_tab :: "inj_event list" where
  "press_tab = [KeyTab]"

definition press_esc :: "inj_event list" where
  "press_esc = [KeyEsc]"

definition execute_output :: "py_object \<Rightarrow> inj_event list" where
  "execute_output out =
     (case out of
        Str s \<Rightarrow> (if s = [] then [] else send_unicode_text s)
      | Tup tag n \<Rightarrow>
          (if tag = ''__BACKSPACE__'' then backspace n
           else if tag = ''__ENTER__'' then press_enter
           else if tag = ''__TAB__'' then press_tab
           else if tag = ''__ESC__'' then press_esc
           else [])
      | Dict ok msg \<Rightarrow> [])"

definition FORCE_CLICK_BEFORE_TYPE :: bool where
  "FORCE_CLICK_BEFORE_TYPE = False"

text \<open>\<open>focus_target\<close> returns at once: \<open>FORCE_CLICK_BEFORE_TYPE\<close> is \<open>False\<close> in this module.\<close>

definition focus_target :: "inj_event list" where
  "focus_target = []"

definition SERVER_DEDUP_WINDOW_SEC :: real where
  "SERVER_DEDUP_WINDOW_SEC = 12 / 10"

definition TEST_INJECT_SENTINEL :: ustr where
  "TEST_INJECT_SENTINEL = ascii ''__TEST_INJECT__''"

definition TEST_INJECT_TEXT :: ustr where
  "TEST_INJECT_TEXT = ascii ''[SendInput Test] 123 ABC '' @ [20013, 25991, 32, 27979, 35797]"

definition TEST_INJECT_LINE2 :: ustr where
  "TEST_INJECT_LINE2 = [9989, 32, 22914, 26524, 20320, 30475, 21040, 36825, 34892, 25991, 23383,
     65292, 35828, 26126, 32] @ ascii ''SendInput '' @ [27880, 20837, 25104, 21151, 65281]"

definition note_test_start :: "ustr \<times> ustr" where
  "note_test_start = ([27979, 35797, 27880, 20837],
     [35831, 23558, 40736, 26631, 25918, 22312, 35760, 20107, 26412, 36755, 20837, 21306,
      65292, 27491, 22312, 27880, 20837, 27979, 35797, 25991, 26412, 8230])"

definition note_test_ok :: "ustr \<times> ustr" where
  "note_test_ok = ([27979, 35797, 27880, 20837, 25104, 21151],
     [35831, 26597, 30475, 35760, 20107, 26412, 26159, 21542, 20986, 29616, 20004, 34892,
      27979, 35797, 25991, 26412, 12290])"

definition title_command :: ustr where
  "title_command = [25351, 20196, 25191, 34892]"

text \<open>
  The service's state: the processor and the single dedup slot. The clock is read once
  per call, inside \<open>_server_dedup\<close>; the reading \<open>now\<close> is an argument of the model, a real
  number of seconds.
\<close>

record service =
  processor :: processor
  last_msg :: ustr
  last_time :: real

definition init_service :: service where
  "init_service = \<lparr>processor = init_processor, last_msg = [], last_time = 0\<rparr>"

definition server_dedup :: "service \<Rightarrow> real \<Rightarrow> ustr \<Rightarrow> bool \<times> service" where
  "server_dedup s now text =
     (if text = last_msg s \<and> now - last_time s < SERVER_DEDUP_WINDOW_SEC then (True, s)
      else (False, s\<lparr>last_msg := text, last_time := now\<rparr>))"

text \<open>
  The part of \<open>handle_text\<close> after the call of \<open>processor.handle\<close>: a result whose output
  is the empty string is only notified; any other output goes to the injector, and an
  unhandled string is recorded. The triple is the processor, the injector calls and the
  notifications.
\<close>

definition inject_result ::
  "processor \<Rightarrow> command_result \<Rightarrow> processor \<times> inj_event list \<times> (ustr \<times> ustr) list" where
  "inject_result p r =
     (if output_obj r = Str [] then (p, [], [(title_command, display_text r)])
      else
        (case output_obj r of
           Str s \<Rightarrow>
             (if \<not> handled r then record_output p s else p,
              focus_target @ execute_output (Str s), [])
         | out \<Rightarrow> (p, execute_output out, [])))"

text \<open>
  \<open>handle_text\<close> catches nothing on the path through the processor, so an exception of
  \<open>handle\<close> leaves \<open>handle_text\<close> too; the dedup slot has been written by then, and
  the service object lives on for the next call. The result is the state of the service
  after the call, the injector calls, the notifications, and the exception raised, if
  any.
\<close>

definition handle_text ::
  "service \<Rightarrow> real \<Rightarrow> ustr
     \<Rightarrow> service \<times> inj_event list \<times> (ustr \<times> ustr) list \<times> py_error option" where
  "handle_text s now raw =
     (let text = strip raw in
      if text = [] then (s, [], [], None)
      else
        (case server_dedup s now text of
           (True, s1) \<Rightarrow> (s1, [], [], None)
         | (False, s1) \<Rightarrow>
             if text = TEST_INJECT_SENTINEL then
               (s1,
                focus_target @ send_unicode_text TEST_INJECT_TEXT @ press_enter
                  @ send_unicode_text TEST_INJECT_LINE2 @ press_enter,
                [note_test_start, note_test_ok], None)
             else
               (case handle (processor s1) text of
                  Inl e \<Rightarrow> (s1, [], [], Some e)
                | Inr (p1, r) \<Rightarrow>
                    (case inject_result p1 r of
                       (p2, events, notes) \<Rightarrow>
                         (s1\<lparr>processor := p2\<rparr>, events, notes, None)))))"

definition injected ::
  "service \<times> inj_event list \<times> (ustr \<times> ustr) list \<times> py_error option \<Rightarrow> inj_event list" where
  "injected res = fst (snd res)"

definition raised ::
  "service \<times> inj_event list \<times> (ustr \<times> ustr) list \<times> py_error option \<Rightarrow> py_error option" where
  "raised res = snd (snd (snd res))"

section \<open>The command execution channel\<close>

text \<open>
  A configured command as the specification types it: \<open>match-string\<close> a string or absent,
  \<open>command\<close> a string, a list of strings or absent, \<open>args\<close> a list of strings or absent.
\<close>

datatype command_field = CmdStr ustr | CmdList "ustr list" | CmdNone

record configured_command =
  cmd_match_string :: "ustr option"
  cmd_command :: command_field
  cmd_args :: "ustr list option"

text \<open>
  \<open>shlex.split(command, posix=False)\<close>: the standard library's tokenizer with
  \<open>whitespace_split\<close> set and no comment characters. A token starts at the first character
  that is not white space; a quote at the start of a token opens a quoted token, which
  keeps its quotes and ends with the closing quote; inside a word a quote is an ordinary
  character. The end of the input inside a quoted token raises \<open>ValueError\<close>.
\<close>

datatype lex_state = InSpace | InWord | InQuote nat

definition shlex_whitespace :: "nat list" where
  "shlex_whitespace = [32, 9, 13, 10]"

definition shlex_quotes :: "nat list" where
  "shlex_quotes = [39, 34]"

definition emit_token :: "ustr \<Rightarrow> py_error + ustr list \<Rightarrow> py_error + ustr list" where
  "emit_token tok rest = (case rest of Inl e \<Rightarrow> Inl e | Inr toks \<Rightarrow> Inr (tok # toks))"

fun shlex_scan :: "lex_state \<Rightarrow> ustr \<Rightarrow> ustr \<Rightarrow> py_error + ustr list" where
  "shlex_scan InSpace tok [] = Inr []"
| "shlex_scan InWord tok [] = Inr [tok]"
| "shlex_scan (InQuote q) tok [] = Inl (ValueError ''No closing quotation'')"
| "shlex_scan InSpace tok (c # cs) =
     (if c \<in> set shlex_whitespace then shlex_scan InSpace [] cs
      else if c \<in> set shlex_quotes then shlex_scan (InQuote c) [c] cs
      else shlex_scan InWord [c] cs)"
| "shlex_scan InWord tok (c # cs) =
     (if c \<in> set shlex_whitespace then emit_token tok (shlex_scan InSpace [] cs)
      else shlex_scan InWord (tok @ [c]) cs)"
| "shlex_scan (InQuote q) tok (c # cs) =
     (if c = q then emit_token (tok @ [c]) (shlex_scan InSpace [] cs)
      else shlex_scan (InQuote q) (tok @ [c]) cs)"

definition shlex_split :: "ustr \<Rightarrow> py_error + ustr list" where
  "shlex_split s = shlex_scan InSpace [] s"

definition build_command_args :: "command_field \<Rightarrow> ustr list option \<Rightarrow> py_error + ustr list" where
  "build_command_args command args =
     (let extra = (case args of None \<Rightarrow> [] | Some xs \<Rightarrow> filter (\<lambda>x. strip x \<noteq> []) xs) in
      case command of
        CmdStr c \<Rightarrow>
          (if strip c \<noteq> [] then
             (case shlex_split c of Inl e \<Rightarrow> Inl e | Inr parts \<Rightarrow> Inr (parts @ extra))
           else Inr extra)
      | CmdList xs \<Rightarrow> Inr (filter (\<lambda>x. strip x \<noteq> []) xs @ extra)
      | CmdNone \<Rightarrow> Inr extra)"

fun find_command :: "ustr \<Rightarrow> configured_command list \<Rightarrow> configured_command option" where
  "find_command text [] = None"
| "find_command text (cmd # cmds) =
     (let match_string = strip (case cmd_match_string cmd of None \<Rightarrow> [] | Some m \<Rightarrow> m) in
      if match_string \<noteq> [] \<and> match_string = text then Some cmd
      else find_command text cmds)"

definition match_command :: "ustr \<Rightarrow> configured_command list \<Rightarrow> configured_command option" where
  "match_command text commands =
     (let t = strip text in if t = [] then None else find_command t commands)"

text \<open>
  \<open>subprocess.run\<close> is the outside world: it either completes with a return code and the
  captured standard error, or raises; the exception is given by its text \<open>str(e)\<close>.
\<close>

datatype run_result = Completed int ustr | Raised ustr

definition msg_no_match :: ustr where
  "msg_no_match = [26410, 25214, 21040, 21305, 37197, 25351, 20196]"

definition msg_misconfigured :: ustr where
  "msg_misconfigured = [21629, 20196, 37197, 32622, 38169, 35823]"

definition msg_cmd_ok :: ustr where
  "msg_cmd_ok = [25351, 20196, 25191, 34892, 25104, 21151, 65306]"

definition msg_cmd_failed :: ustr where
  "msg_cmd_failed = [25351, 20196, 25191, 34892, 22833, 36133, 65306]"

definition msg_cmd_raised :: ustr where
  "msg_cmd_raised = [25351, 20196, 25191, 34892, 24322, 24120, 65306]"

definition execute_command ::
  "(ustr list \<Rightarrow> run_result) \<Rightarrow> configured_command list \<Rightarrow> ustr \<Rightarrow> py_error + command_result" where
  "execute_command run commands text =
     (case match_command text commands of
        None \<Rightarrow> Inr (CommandResult True (msg_no_match @ [65306] @ text) (Dict False msg_no_match))
      | Some cmd \<Rightarrow>
          (case build_command_args (cmd_command cmd) (cmd_args cmd) of
             Inl e \<Rightarrow> Inl e
           | Inr args \<Rightarrow>
               if args = [] then
                 Inr (CommandResult True (msg_misconfigured @ [65306] @ text)
                        (Dict False msg_misconfigured))
               else
                 (case run args of
                    Completed returncode err \<Rightarrow>
                      (let ok = (returncode = 0);
                           stderr = strip err;
                           msg = (if ok then msg_cmd_ok @ text
                                  else (let m = msg_cmd_failed @ text @ [65288] @ ascii ''exit ''
                                                  @ str_int returncode @ [65289]
                                        in if stderr \<noteq> [] then m @ ascii '' - '' @ stderr else m))
                       in Inr (CommandResult True msg (Dict ok msg)))
                  | Raised e \<Rightarrow>
                      Inr (CommandResult True (msg_cmd_raised @ text @ ascii '' - '' @ e)
                             (Dict False (msg_cmd_raised @ e))))))"

section \<open>Sequences of calls and the invariant of the history\<close>

text \<open>
  One step of the interpreter as the service drives it: \<open>processor.handle\<close> followed by
  the dispatch of its result (the last lines of \<open>handle_text\<close>), and the same over a list
  of texts, with the injector calls of all steps in order and the exceptions raised on
  the way. A step that raises leaves the processor as it was.
\<close>

definition interp_step ::
  "processor \<Rightarrow> ustr
     \<Rightarrow> processor \<times> inj_event list \<times> (ustr \<times> ustr) list \<times> py_error option" where
  "interp_step p text =
     (case handle p text of
        Inl e \<Rightarrow> (p, [], [], Some e)
      | Inr (p1, r) \<Rightarrow>
          (case inject_result p1 r of (p2, events, notes) \<Rightarrow> (p2, events, notes, None)))"

fun interp_all ::
  "processor \<Rightarrow> ustr list \<Rightarrow> processor \<times> inj_event list \<times> py_error list" where
  "interp_all p [] = (p, [], [])"
| "interp_all p (t # ts) =
     (case interp_step p t of
        (p1, events, notes, err) \<Rightarrow>
          (case interp_all p1 ts of
             (p2, later, errs) \<Rightarrow>
               (p2, events @ later, (case err of None \<Rightarrow> [] | Some e \<Rightarrow> [e]) @ errs)))"

definition history_ok :: "ustr list \<Rightarrow> bool" where
  "history_ok h \<longleftrightarrow> length h \<le> HISTORY_MAX_LEN \<and> list_all (\<lambda>e. length e \<le> 4000) h"

section \<open>Evaluation and basic facts\<close>

lemmas phrase_defs = pause_phrases_def resume_phrases_def enter_phrases_def tab_phrases_def
  esc_phrases_def undo_phrases_def clear_phrases_def ascii_def

lemmas eval_norm = normalize_text_def strip_def is_space_def whitespace_table_def alias_map_def
  starts_with_def

lemmas eval_parse = parse_delete_n_def match_delete_at_def starts_with_def kw_delete_def
  kw_backspace_def is_space_def whitespace_table_def is_decimal_def int_of_digits_def
  digits_value_def MAX_STR_DIGITS_def decimal_value_def decimal_zeros_def

lemma whitespace_table_not_decimal: "\<forall>c\<in>set whitespace_table. decimal_value c = None"
  by (simp add: whitespace_table_def decimal_value_def decimal_zeros_def)

lemma space_not_decimal: "is_space c \<Longrightarrow> \<not> is_decimal c"
  using whitespace_table_not_decimal by (simp add: is_space_def is_decimal_def)

lemma digits_value_nonneg_aux:
  "0 \<le> a \<Longrightarrow>
   0 \<le> foldl (\<lambda>a c. 10 * a + int (case decimal_value c of None \<Rightarrow> 0 | Some d \<Rightarrow> d)) a ds"
  by (induction ds arbitrary: a) auto

lemma digits_value_nonneg: "0 \<le> digits_value ds"
  unfolding digits_value_def by (rule digits_value_nonneg_aux) simp


text \<open>\<open>parse_delete_n\<close> raises exactly when group 2 of the match has more than 4300 digits.\<close>

lemma parse_delete_n_raises_iff:
  "parse_delete_n t = Inl e \<longleftrightarrow>
     (\<exists>ds. re_search_delete t = Some ds \<and> MAX_STR_DIGITS < length ds
           \<and> e = int_limit_error (length ds))"
  by (auto simp: parse_delete_n_def int_of_digits_def split: option.splits if_splits)

lemma parse_delete_n_value:
  "re_search_delete t = Some ds \<Longrightarrow> length ds \<le> MAX_STR_DIGITS \<Longrightarrow>
   parse_delete_n t = Inr (Some (digits_value ds))"
  by (simp add: parse_delete_n_def int_of_digits_def)

text \<open>Group 2 is a run of digits of the text, so it is no longer than the text.\<close>

lemma match_delete_at_length: "match_delete_at t = Some ds \<Longrightarrow> length ds \<le> length t"
proof -
  assume a: "match_delete_at t = Some ds"
  then have ds: "ds = takeWhile is_decimal (dropWhile is_space (drop 2 t))"
    by (auto simp: match_delete_at_def Let_def split: if_splits)
  have "length ds \<le> length (dropWhile is_space (drop 2 t))"
    unfolding ds by (rule length_takeWhile_le)
  also have "\<dots> \<le> length (drop 2 t)" by (rule length_dropWhile_le)
  also have "\<dots> \<le> length t" by simp
  finally show ?thesis .
qed

lemma re_search_delete_length: "re_search_delete t = Some ds \<Longrightarrow> length ds \<le> length t"
proof (induction t)
  case Nil
  then show ?case by simp
next
  case (Cons c cs)
  show ?case
  proof (cases "match_delete_at (c # cs)")
    case None
    with Cons show ?thesis by simp
  next
    case (Some r)
    with Cons.prems have "r = ds" by simp
    with Some show ?thesis using match_delete_at_length by blast
  qed
qed

lemma match_delete_at_Nil: "match_delete_at [] = None"
  by (simp add: match_delete_at_def starts_with_def kw_delete_def kw_backspace_def)

text \<open>A keyword, white space and digits at the head of the text: the pattern matches there.\<close>

lemma match_delete_at_here:
  assumes kw: "kw = kw_delete \<or> kw = kw_backspace"
    and ws: "\<forall>c\<in>set ws. is_space c"
    and ds: "ds \<noteq> []" "\<forall>c\<in>set ds. is_decimal c"
  shows "match_delete_at (kw @ ws @ ds @ rest) = Some (ds @ takeWhile is_decimal rest)"
proof -
  have sw: "starts_with kw_delete (kw @ ws @ ds @ rest)
            \<or> starts_with kw_backspace (kw @ ws @ ds @ rest)"
    using kw by (auto simp: starts_with_def kw_delete_def kw_backspace_def)
  have dr: "drop 2 (kw @ ws @ ds @ rest) = ws @ ds @ rest"
    using kw by (auto simp: kw_delete_def kw_backspace_def)
  obtain d ds' where dc: "ds = d # ds'" using ds(1) by (cases ds) auto
  have nsp: "\<not> is_space d" using ds(2) dc space_not_decimal by auto
  have dw: "dropWhile is_space (ws @ ds @ rest) = ds @ rest"
    using ws nsp dc by (simp add: dropWhile_append2)
  have tw: "takeWhile is_decimal (ds @ rest) = ds @ takeWhile is_decimal rest"
    using ds(2) by (simp add: takeWhile_append2)
  have "match_delete_at (kw @ ws @ ds @ rest) =
      (let r = takeWhile is_decimal (dropWhile is_space (drop 2 (kw @ ws @ ds @ rest)))
       in if r = [] then None else Some r)"
    using sw unfolding match_delete_at_def by (simp only: if_True)
  then show ?thesis
    unfolding dr dw tw Let_def using ds(1) by simp
qed

text \<open>
  The search finds a match whenever the pattern matches at some position, and the match
  it returns is the one at that position when no earlier position matches.
\<close>

lemma re_search_delete_append:
  assumes "match_delete_at t = Some m"
  shows "\<exists>n. re_search_delete (pre @ t) = Some n \<and>
           ((\<forall>i<length pre. match_delete_at (drop i (pre @ t)) = None) \<longrightarrow> n = m)"
proof (induction pre)
  case Nil
  from assms obtain c cs where "t = c # cs"
    by (cases t) (auto simp: match_delete_at_Nil)
  with assms show ?case by simp
next
  case (Cons a pre)
  show ?case
  proof (cases "match_delete_at (a # pre @ t)")
    case None
    from Cons obtain n where n: "re_search_delete (pre @ t) = Some n"
      and imp: "(\<forall>i<length pre. match_delete_at (drop i (pre @ t)) = None) \<longrightarrow> n = m"
      by blast
    have "(\<forall>i<length (a # pre). match_delete_at (drop i ((a # pre) @ t)) = None) \<longrightarrow> n = m"
    proof
      assume h: "\<forall>i<length (a # pre). match_delete_at (drop i ((a # pre) @ t)) = None"
      have "\<forall>i<length pre. match_delete_at (drop i (pre @ t)) = None"
      proof (intro allI impI)
        fix i assume "i < length pre"
        then have "Suc i < length (a # pre)" by simp
        with h have "match_delete_at (drop (Suc i) ((a # pre) @ t)) = None" by blast
        then show "match_delete_at (drop i (pre @ t)) = None" by simp
      qed
      with imp show "n = m" by blast
    qed
    with None n show ?thesis by simp
  next
    case (Some k)
    have "\<not> (\<forall>i<length (a # pre). match_delete_at (drop i ((a # pre) @ t)) = None)"
    proof
      assume "\<forall>i<length (a # pre). match_delete_at (drop i ((a # pre) @ t)) = None"
      then have "match_delete_at (drop 0 ((a # pre) @ t)) = None"
        by (metis length_greater_0_conv list.distinct(1))
      with Some show False by simp
    qed
    then have neg:
      "\<not> (\<forall>i<length (a # pre). match_delete_at (drop i ((a # pre) @ t)) = None)" .
    have "re_search_delete ((a # pre) @ t) = Some k" using Some by simp
    with neg show ?thesis by blast
  qed
qed

lemma str_int_5: "str_int 5 = [53]"
  by (simp add: str_int_def digits_of_nat.simps)


section \<open>Delete-N parsing\<close>

lemma norm_del5:
  "normalize_text [21024, 38500, 53, 20010, 23383] = [21024, 38500, 53, 20010, 23383]"
  by (simp add: eval_norm)

lemma norm_del: "normalize_text [21024, 38500] = [21024, 38500]"
  by (simp add: eval_norm)

lemma parse_del5: "parse_delete_n [21024, 38500, 53, 20010, 23383] = Inr (Some 5)"
  by (simp add: eval_parse)

lemma parse_del: "parse_delete_n [21024, 38500] = Inr None"
  by (simp add: eval_parse)

text \<open>
  C7. In the Active state, \<open>handle\<close> on the text U+5220 U+9664 5 U+4E2A U+5B57 ("delete 5
  characters") returns the action \<open>("__BACKSPACE__", 5)\<close>, and on the bare keyword
  U+5220 U+9664 ("delete", no digits) it returns the unhandled fallback: \<open>handled\<close> false
  and the text itself as the string to type. Neither call changes the processor, and
  neither raises.
\<close>

theorem C7_delete_n_parsing:
  "handle (p\<lparr>paused := False\<rparr>) [21024, 38500, 53, 20010, 23383] =
     Inr (p\<lparr>paused := False\<rparr>,
          CommandResult True (msg_delete_pre @ [53] @ msg_delete_post) (Tup ''__BACKSPACE__'' 5))
   \<and> handle (p\<lparr>paused := False\<rparr>) [21024, 38500] =
     Inr (p\<lparr>paused := False\<rparr>, CommandResult False [21024, 38500] (Str [21024, 38500]))"
  by (simp add: handle_def Let_def norm_del5 norm_del parse_del5 parse_del str_int_5 phrase_defs
      punc_map_def)

theorem C7_delete_n_parsing_witness:
  "handle init_processor [21024, 38500, 53, 20010, 23383] =
     Inr (init_processor,
          CommandResult True (msg_delete_pre @ [53] @ msg_delete_post) (Tup ''__BACKSPACE__'' 5))
   \<and> handle init_processor [21024, 38500] =
     Inr (init_processor, CommandResult False [21024, 38500] (Str [21024, 38500]))"
  using C7_delete_n_parsing [of init_processor] by (simp add: init_processor_def)


section \<open>Delete-N by substring search\<close>

lemma norm_example:
  "normalize_text [35831, 21024, 38500, 51, 20010, 23383, 35874, 35874]
     = [35831, 21024, 38500, 51, 20010, 23383, 35874, 35874]"
  by (simp add: eval_norm)

lemma is_decimal_51: "is_decimal 51" "\<not> is_decimal 20010"
  by (simp_all add: is_decimal_def decimal_value_def decimal_zeros_def)

lemma digits_value_3: "digits_value [51] = 3"
  by (simp add: digits_value_def decimal_value_def decimal_zeros_def)

lemma str_int_3: "str_int 3 = [51]"
  by (simp add: str_int_def digits_of_nat.simps)

text \<open>A text of at most 4300 characters cannot hold a longer run of digits.\<close>

lemma short_text_digits_ok:
  "length t \<le> MAX_STR_DIGITS \<Longrightarrow>
   \<forall>r. re_search_delete t = Some r \<longrightarrow> length r \<le> MAX_STR_DIGITS"
  using re_search_delete_length by fastforce

text \<open>
  C10 (as amended). The delete-N pattern is found by search, not by a match of the whole
  text. Let the processor be Active and let the normalized text contain, anywhere, a
  keyword (U+5220 U+9664 "delete" or U+9000 U+683C "backspace"), then any white space,
  then at least one digit, let it be in none of the earlier phrase sets, and let the run
  of digits that the search reads (the one at the leftmost match) have at most 4300
  digits. Then \<open>handle\<close> returns the action \<open>("__BACKSPACE__", n)\<close> and does not type the
  text; \<open>n\<close> is never negative, and when no earlier position of the text matches, \<open>n\<close> is
  the value of the whole run of digits at that place. The example of the claim ("please
  delete 3 characters, thanks") yields \<open>("__BACKSPACE__", 3)\<close>.
\<close>

theorem C10_delete_n_substring:
  assumes active: "\<not> paused p"
    and form: "normalize_text raw = pre @ kw @ ws @ ds @ rest"
    and kw: "kw = kw_delete \<or> kw = kw_backspace"
    and ws: "\<forall>c\<in>set ws. is_space c"
    and ds: "ds \<noteq> []" "\<forall>c\<in>set ds. is_decimal c"
    and earlier: "normalize_text raw \<notin> set (pause_phrases @ resume_phrases @ enter_phrases
                     @ tab_phrases @ esc_phrases @ undo_phrases)"
                 "map_of punc_map (normalize_text raw) = None"
    and readable: "\<forall>r. re_search_delete (normalize_text raw) = Some r
                     \<longrightarrow> length r \<le> MAX_STR_DIGITS"
  shows "\<exists>n. parse_delete_n (normalize_text raw) = Inr (Some n) \<and> 0 \<le> n
           \<and> handle p raw =
               Inr (p, CommandResult True (msg_delete_pre @ str_int n @ msg_delete_post)
                         (Tup ''__BACKSPACE__'' n))
           \<and> ((\<forall>i<length pre. match_delete_at (drop i (normalize_text raw)) = None)
                \<longrightarrow> n = digits_value (ds @ takeWhile is_decimal rest))"
proof -
  have here: "match_delete_at (kw @ ws @ ds @ rest) = Some (ds @ takeWhile is_decimal rest)"
    using kw ws ds by (rule match_delete_at_here)
  from re_search_delete_append [OF here, of pre]
  obtain r where r: "re_search_delete (pre @ kw @ ws @ ds @ rest) = Some r"
    and left: "(\<forall>i<length pre. match_delete_at (drop i (pre @ kw @ ws @ ds @ rest)) = None)
                 \<longrightarrow> r = ds @ takeWhile is_decimal rest"
    by blast
  have found: "re_search_delete (normalize_text raw) = Some r"
    using r form by simp
  with readable have "length r \<le> MAX_STR_DIGITS" by blast
  with found have parse: "parse_delete_n (normalize_text raw) = Inr (Some (digits_value r))"
    by (rule parse_delete_n_value)
  have nonneg: "0 \<le> digits_value r" by (rule digits_value_nonneg)
  have "handle p raw =
          Inr (p, CommandResult True (msg_delete_pre @ str_int (digits_value r) @ msg_delete_post)
                    (Tup ''__BACKSPACE__'' (digits_value r)))"
    using active earlier parse by (simp add: handle_def Let_def)
  with parse nonneg left form show ?thesis by auto
qed

theorem C10_delete_n_substring_witness:
  "handle init_processor [35831, 21024, 38500, 51, 20010, 23383, 35874, 35874] =
     Inr (init_processor,
          CommandResult True (msg_delete_pre @ [51] @ msg_delete_post) (Tup ''__BACKSPACE__'' 3))"
proof -
  let ?raw = "[35831, 21024, 38500, 51, 20010, 23383, 35874, 35874] :: ustr"
  have form: "normalize_text ?raw = [35831] @ kw_delete @ [] @ [51] @ [20010, 23383, 35874, 35874]"
    by (simp add: norm_example kw_delete_def)
  have earlier: "normalize_text ?raw \<notin> set (pause_phrases @ resume_phrases @ enter_phrases
                     @ tab_phrases @ esc_phrases @ undo_phrases)"
    by (simp add: norm_example phrase_defs)
  have punc: "map_of punc_map (normalize_text ?raw) = None"
    by (simp add: norm_example punc_map_def)
  have readable: "\<forall>r. re_search_delete (normalize_text ?raw) = Some r
                     \<longrightarrow> length r \<le> MAX_STR_DIGITS"
    by (rule short_text_digits_ok) (simp add: norm_example MAX_STR_DIGITS_def)
  have left: "\<forall>i<length [35831::nat]. match_delete_at (drop i (normalize_text ?raw)) = None"
    by (simp add: norm_example match_delete_at_def starts_with_def kw_delete_def kw_backspace_def)
  from C10_delete_n_substring [of init_processor ?raw "[35831]" kw_delete "[]" "[51]"
      "[20010, 23383, 35874, 35874]", OF _ form _ _ _ _ earlier punc readable]
  obtain n where "handle init_processor ?raw =
               Inr (init_processor,
                    CommandResult True (msg_delete_pre @ str_int n @ msg_delete_post)
                      (Tup ''__BACKSPACE__'' n))"
     and "(\<forall>i<length [35831::nat]. match_delete_at (drop i (normalize_text ?raw)) = None)
                \<longrightarrow> n = digits_value ([51] @ takeWhile is_decimal [20010, 23383, 35874, 35874])"
    by (auto simp: init_processor_def is_decimal_51)
  with left show ?thesis
    by (simp add: is_decimal_51 digits_value_3 str_int_3)
qed

text \<open>A keyword followed by a run of digits \<open>1\<close>, of any length.\<close>

lemma strip_no_space: "\<forall>c\<in>set s. \<not> is_space c \<Longrightarrow> strip s = s"
proof -
  assume a: "\<forall>c\<in>set s. \<not> is_space c"
  have d: "dropWhile is_space xs = xs" if "\<forall>c\<in>set xs. \<not> is_space c" for xs
    using that by (cases xs) auto
  have "dropWhile is_space (rev s) = rev s" using a by (intro d) simp
  with d [OF a] show ?thesis by (simp add: strip_def)
qed

lemma replace_absent: "old \<noteq> [] \<Longrightarrow> hd old \<notin> set s \<Longrightarrow> replace old new s = s"
proof (induction s)
  case Nil
  then show ?case by simp
next
  case (Cons c cs)
  have "\<not> starts_with old (c # cs)"
  proof
    assume "starts_with old (c # cs)"
    then have "take (length old) (c # cs) = old" by (simp add: starts_with_def)
    with Cons.prems(1) have "hd old = c" by (cases old) auto
    with Cons.prems(2) show False by simp
  qed
  with Cons show ?case by simp
qed

lemma long_text_no_phrase:
  assumes "10 < length t"
  shows "t \<notin> set (pause_phrases @ resume_phrases @ enter_phrases @ tab_phrases @ esc_phrases
                   @ undo_phrases @ clear_phrases)"
    and "map_of punc_map t = None"
proof -
  have "\<forall>x\<in>set (pause_phrases @ resume_phrases @ enter_phrases @ tab_phrases @ esc_phrases
                   @ undo_phrases @ clear_phrases). length x \<le> 10"
    by (simp add: phrase_defs)
  with assms show "t \<notin> set (pause_phrases @ resume_phrases @ enter_phrases @ tab_phrases
                   @ esc_phrases @ undo_phrases @ clear_phrases)"
    by fastforce
  have "\<forall>x\<in>set (map fst punc_map). length x \<le> 10"
    by (simp add: punc_map_def)
  with assms have "t \<notin> set (map fst punc_map)" by fastforce
  then show "map_of punc_map t = None"
    by (simp add: map_of_eq_None_iff)
qed

lemma norm_delete_ones:
  "normalize_text (kw_delete @ replicate n 49) = kw_delete @ replicate n 49"
proof -
  have ns: "\<forall>c\<in>set (kw_delete @ replicate n 49). \<not> is_space c"
    by (auto simp: kw_delete_def is_space_def whitespace_table_def)
  have absent: "replace old new (kw_delete @ replicate n 49) = kw_delete @ replicate n 49"
    if "(old, new) \<in> set alias_map" for old new
  proof (rule replace_absent)
    show "old \<noteq> []" using that by (auto simp: alias_map_def)
    show "hd old \<notin> set (kw_delete @ replicate n 49)"
      using that by (auto simp: alias_map_def kw_delete_def)
  qed
  show ?thesis
    unfolding normalize_text_def strip_no_space [OF ns]
    by (simp add: alias_map_def absent)
qed

lemma search_delete_ones:
  "0 < n \<Longrightarrow> re_search_delete (kw_delete @ replicate n 49) = Some (replicate n 49)"
proof -
  assume n: "0 < n"
  have dec: "is_decimal 49"
    by (simp add: is_decimal_def decimal_value_def decimal_zeros_def)
  have "match_delete_at (kw_delete @ [] @ replicate n 49 @ [])
          = Some (replicate n 49 @ takeWhile is_decimal [])"
    using n dec by (intro match_delete_at_here) auto
  then have m: "match_delete_at (kw_delete @ replicate n 49) = Some (replicate n 49)"
    by simp
  from re_search_delete_append [OF m, of "[]"] show ?thesis by simp
qed

lemma handle_delete_ones:
  assumes "\<not> paused p" "MAX_STR_DIGITS < n"
  shows "handle p (kw_delete @ replicate n 49) = Inl (int_limit_error n)"
proof -
  let ?t = "kw_delete @ replicate n 49"
  have n: "4300 < n" using assms(2) by (simp add: MAX_STR_DIGITS_def)
  then have len: "10 < length ?t" by simp
  have no_phrase: "?t \<notin> set pause_phrases" "?t \<notin> set resume_phrases"
    "?t \<notin> set enter_phrases" "?t \<notin> set tab_phrases" "?t \<notin> set esc_phrases"
    "?t \<notin> set undo_phrases"
    using long_text_no_phrase(1) [OF len] by simp_all
  have punc: "map_of punc_map ?t = None"
    using len by (rule long_text_no_phrase(2))
  have "re_search_delete ?t = Some (replicate n 49)"
    using n by (intro search_delete_ones) simp
  then have parse: "parse_delete_n ?t = Inl (int_limit_error n)"
    using assms(2) by (simp add: parse_delete_n_raises_iff)
  show ?thesis
    using assms(1) no_phrase punc parse
    by (simp add: handle_def Let_def norm_delete_ones)
qed

text \<open>
  The claim as it was stated puts no bound on the digits. For the keyword followed by
  4301 digits \<open>1\<close> (a text in no phrase set, which its normalization leaves as it is) the
  search finds the digits, \<open>int\<close> refuses them, and \<open>handle\<close> raises instead of returning
  an action.
\<close>

theorem C10_counterexample:
  "\<not> paused init_processor
   \<and> is_decimal 49
   \<and> normalize_text (kw_delete @ replicate 4301 49) = kw_delete @ replicate 4301 49
   \<and> handle init_processor (kw_delete @ replicate 4301 49) = Inl (int_limit_error 4301)"
proof -
  have dec: "is_decimal 49"
    by (simp add: is_decimal_def decimal_value_def decimal_zeros_def)
  have act: "\<not> paused init_processor" by (simp add: init_processor_def)
  have big: "MAX_STR_DIGITS < 4301" by (simp add: MAX_STR_DIGITS_def)
  show ?thesis
    using dec act handle_delete_ones [OF act big] norm_delete_ones [of 4301] by simp
qed

section \<open>Pause gating\<close>

lemma handle_pause:
  "normalize_text t \<in> set pause_phrases \<Longrightarrow>
   handle p t = Inr (p\<lparr>paused := True\<rparr>, CommandResult True msg_paused (Str []))"
  by (simp add: handle_def Let_def)

lemma pause_resume_disjoint: "x \<in> set resume_phrases \<Longrightarrow> x \<notin> set pause_phrases"
  by (auto simp: pause_phrases_def resume_phrases_def)

lemma handle_resume:
  "normalize_text t \<in> set resume_phrases \<Longrightarrow>
   handle p t = Inr (p\<lparr>paused := False\<rparr>, CommandResult True msg_resumed (Str []))"
  by (simp add: handle_def Let_def pause_resume_disjoint)

lemma handle_while_paused:
  "paused p \<Longrightarrow> normalize_text t \<notin> set pause_phrases \<Longrightarrow>
   normalize_text t \<notin> set resume_phrases \<Longrightarrow>
   handle p t = Inr (p, CommandResult True (msg_while_paused @ t) (Str []))"
  by (simp add: handle_def Let_def)

lemma inject_result_empty:
  "inject_result p (CommandResult h d (Str [])) = (p, [], [(title_command, d)])"
  by (simp add: inject_result_def CommandResult_def)

lemma interp_all_paused:
  "paused q \<Longrightarrow>
   \<forall>t\<in>set ts. normalize_text t \<notin> set pause_phrases \<and> normalize_text t \<notin> set resume_phrases \<Longrightarrow>
   interp_all q ts = (q, [], [])"
  by (induction ts) (simp_all add: interp_step_def handle_while_paused inject_result_empty)

text \<open>
  C2. A pause phrase sets the processor to Paused and returns the empty output. In the
  Paused state every call of \<open>handle\<close> with a text that is neither a pause nor a resume
  phrase returns the empty output with the text as display message and leaves the
  processor as it was (still Paused, the history untouched); the service's dispatch of
  that result calls no injector and records nothing. So over any sequence of such texts
  nothing is injected, nothing is raised and the state is unchanged. A resume phrase clears the flag and
  changes nothing else, so the next call is handled as in the Active state.
\<close>

theorem C2_pause_gating:
  "(normalize_text u \<in> set pause_phrases \<longrightarrow>
      handle p u = Inr (p\<lparr>paused := True\<rparr>, CommandResult True msg_paused (Str []))
      \<and> interp_step p u = (p\<lparr>paused := True\<rparr>, [], [(title_command, msg_paused)], None))
   \<and> (paused q \<and> (\<forall>t\<in>set ts. normalize_text t \<notin> set pause_phrases
                               \<and> normalize_text t \<notin> set resume_phrases) \<longrightarrow>
      (\<forall>t\<in>set ts. handle q t = Inr (q, CommandResult True (msg_while_paused @ t) (Str []))
                  \<and> interp_step q t = (q, [], [(title_command, msg_while_paused @ t)], None))
      \<and> interp_all q ts = (q, [], []))
   \<and> (normalize_text v \<in> set resume_phrases \<longrightarrow>
      handle q v = Inr (q\<lparr>paused := False\<rparr>, CommandResult True msg_resumed (Str []))
      \<and> interp_step q v = (q\<lparr>paused := False\<rparr>, [], [(title_command, msg_resumed)], None))"
  by (simp add: handle_pause handle_resume handle_while_paused interp_all_paused interp_step_def
      inject_result_empty)

lemma norm_samples:
  "normalize_text [26242, 20572] = [26242, 20572]"
  "normalize_text [32487, 32493] = [32487, 32493]"
  "normalize_text (ascii ''hello'') = ascii ''hello''"
  "normalize_text [104, 101, 108, 108, 111] = [104, 101, 108, 108, 111]"
  "normalize_text [36887, 21495] = [36887, 21495]"
  "normalize_text [21024, 38500, 19978, 19968, 21477] = [21024, 38500, 19978, 19968, 21477]"
  by (simp_all add: eval_norm ascii_def)

theorem C2_pause_gating_witness:
  "handle init_processor [26242, 20572] =
     Inr (\<lparr>paused = True, history = []\<rparr>, CommandResult True msg_paused (Str []))
   \<and> interp_all \<lparr>paused = True, history = [ascii ''hello'']\<rparr>
        [ascii ''hello'', [36887, 21495], [21024, 38500, 19978, 19968, 21477] ]
      = (\<lparr>paused = True, history = [ascii ''hello'']\<rparr>, [], [])
   \<and> handle \<lparr>paused = True, history = [ascii ''hello'']\<rparr> [32487, 32493] =
     Inr (\<lparr>paused = False, history = [ascii ''hello'']\<rparr>, CommandResult True msg_resumed (Str []))"
  using C2_pause_gating [of "[26242, 20572]" init_processor
      "\<lparr>paused = True, history = [ascii ''hello'']\<rparr>"
      "[ascii ''hello'', [36887, 21495], [21024, 38500, 19978, 19968, 21477] ]"
      "[32487, 32493]"]
  by (simp add: norm_samples init_processor_def pause_phrases_def resume_phrases_def ascii_def)

text \<open>
  The same at the entry of the service. \<open>handle_text\<close> intercepts the diagnostic sentinel
  \<open>__TEST_INJECT__\<close> before it calls the processor, so that text is no call of \<open>handle\<close>:
  it injects the fixed test lines whatever the pause flag is. Every other text is gated,
  and no text at all touches the processor while it is Paused.
\<close>

lemma handle_text_while_paused:
  assumes "paused (processor s)"
    and "normalize_text (strip raw) \<notin> set pause_phrases"
    and "normalize_text (strip raw) \<notin> set resume_phrases"
  shows "processor (fst (handle_text s now raw)) = processor s"
    and "strip raw \<noteq> TEST_INJECT_SENTINEL \<Longrightarrow> injected (handle_text s now raw) = []"
    and "raised (handle_text s now raw) = None"
  using assms
  by (auto simp: handle_text_def Let_def server_dedup_def injected_def raised_def handle_while_paused
      inject_result_empty split: prod.splits if_splits)


section \<open>Undo\<close>

lemma deque_append_not_Nil: "0 < n \<Longrightarrow> deque_append n h x \<noteq> []"
  by (cases h) (auto simp: deque_append_def Let_def)

lemma deque_append_last: "0 < n \<Longrightarrow> last (deque_append n h x) = x"
  by (cases h) (auto simp: deque_append_def Let_def)

lemma deque_append_butlast:
  "0 < n \<Longrightarrow> butlast (deque_append n h x) = (if n \<le> length h then tl h else h)"
  by (cases h) (auto simp: deque_append_def Let_def butlast_append)

lemma in_set_tl: "x \<in> set (tl xs) \<Longrightarrow> x \<in> set xs"
  by (cases xs) auto

lemma undo_phrase_cases:
  assumes "u \<in> set undo_phrases"
  obtains "u = [21024, 38500, 19978, 19968, 21477]" | "u = [25764, 22238, 19978, 19968, 21477]"
    | "u = [25764, 38144, 19978, 19968, 21477]" | "u = [21024, 25481, 19978, 19968, 21477]"
  using assms by (auto simp: undo_phrases_def)

lemma undo_phrase_fixed:
  assumes "u \<in> set undo_phrases"
  shows "strip u = u \<and> normalize_text u = u"
  using assms by (cases rule: undo_phrase_cases) (simp_all add: eval_norm)

lemma undo_phrase_not_earlier:
  assumes "u \<in> set undo_phrases"
  shows "u \<notin> set pause_phrases \<and> u \<notin> set resume_phrases \<and> u \<notin> set enter_phrases
     \<and> u \<notin> set tab_phrases \<and> u \<notin> set esc_phrases \<and> map_of punc_map u = None
     \<and> u \<noteq> [] \<and> u \<noteq> TEST_INJECT_SENTINEL \<and> u \<noteq> ascii ''hello''"
  using assms
  by (cases rule: undo_phrase_cases)
     (simp_all add: phrase_defs punc_map_def TEST_INJECT_SENTINEL_def)

lemma handle_undo_active:
  assumes "\<not> paused p" "u \<in> set undo_phrases"
  shows "handle p u =
     (if history p = [] then Inr (p, CommandResult True msg_nothing_to_delete (Str []))
      else Inr (p\<lparr>history := butlast (history p)\<rparr>,
            CommandResult True (msg_undo @ last (history p))
              (Tup ''__BACKSPACE__'' (int (length (last (history p)))))))"
  using assms undo_phrase_fixed [of u] undo_phrase_not_earlier [of u]
  by (simp add: handle_def Let_def)

lemma handle_hello:
  "\<not> paused p \<Longrightarrow>
   handle p (ascii ''hello'') = Inr (p, CommandResult False (ascii ''hello'') (Str (ascii ''hello'')))"
  by (simp add: handle_def Let_def eval_norm eval_parse phrase_defs punc_map_def)

lemma handle_text_hello:
  assumes "\<not> paused (processor s)" "\<not> fst (server_dedup s now (ascii ''hello''))"
  shows "handle_text s now (ascii ''hello'') =
     (s\<lparr>last_msg := ascii ''hello'', last_time := now,
         processor := (processor s)\<lparr>history :=
            deque_append HISTORY_MAX_LEN (history (processor s)) (ascii ''hello'')\<rparr>\<rparr>,
      [PasteText (ascii ''hello'')], [], None)"
proof -
  have st: "strip (ascii ''hello'') = ascii ''hello''"
    by (simp add: strip_def is_space_def whitespace_table_def ascii_def)
  have ne: "ascii ''hello'' \<noteq> []" "ascii ''hello'' \<noteq> TEST_INJECT_SENTINEL"
    "ascii ''hello'' \<noteq> [10]" "\<not> 4000 < length (ascii ''hello'')"
    by (simp_all add: ascii_def TEST_INJECT_SENTINEL_def)
  have sd: "server_dedup s now (ascii ''hello'')
              = (False, s\<lparr>last_msg := ascii ''hello'', last_time := now\<rparr>)"
    using assms(2) by (simp add: server_dedup_def split: if_splits)
  show ?thesis
    using assms(1) ne
    by (simp add: handle_text_def Let_def st sd handle_hello inject_result_def CommandResult_def
        record_output_def execute_output_def send_unicode_text_def focus_target_def)
qed

text \<open>
  C3 (as amended). Let the service be Active and let the call with the free text
  \<open>hello\<close> pass the dedup gate. The call injects \<open>hello\<close> and pushes it onto the history.
  An undo phrase handled next returns the action \<open>("__BACKSPACE__", 5)\<close> and pops that
  entry: the history is the one before the push (less its oldest entry when it was full),
  and holds no \<open>hello\<close> unless an older one was there. Through \<open>handle_text\<close> the undo
  phrase injects five backspaces. For every state with an empty history an undo phrase
  returns the empty output and changes nothing; its display text is the warning
  "nothing to delete" when the processor is Active, and the echo of a gated text when it
  is Paused.
\<close>

theorem C3_undo:
  assumes s1: "s1 = fst (handle_text s now (ascii ''hello''))"
    and u: "u \<in> set undo_phrases"
  shows
    "(\<not> paused (processor s) \<and> \<not> fst (server_dedup s now (ascii ''hello'')) \<longrightarrow>
        injected (handle_text s now (ascii ''hello'')) = [PasteText (ascii ''hello'')]
      \<and> history (processor s1)
          = deque_append HISTORY_MAX_LEN (history (processor s)) (ascii ''hello'')
      \<and> last (history (processor s1)) = ascii ''hello''
      \<and> handle (processor s1) u =
          Inr ((processor s1)\<lparr>history := butlast (history (processor s1))\<rparr>,
           CommandResult True (msg_undo @ ascii ''hello'') (Tup ''__BACKSPACE__'' 5))
      \<and> injected (handle_text s1 now' u) = [KeyBackspace 5]
      \<and> history (processor (fst (handle_text s1 now' u))) = butlast (history (processor s1))
      \<and> butlast (history (processor s1))
          = (if HISTORY_MAX_LEN \<le> length (history (processor s)) then tl (history (processor s))
             else history (processor s))
      \<and> (ascii ''hello'' \<notin> set (history (processor s)) \<longrightarrow>
           ascii ''hello'' \<notin> set (butlast (history (processor s1)))))
     \<and> (history p = [] \<longrightarrow>
          handle p u =
            Inr (p, CommandResult True
                  (if paused p then msg_while_paused @ u else msg_nothing_to_delete) (Str [])))"
proof -
  have part2: "history p = [] \<longrightarrow>
          handle p u =
            Inr (p, CommandResult True
                  (if paused p then msg_while_paused @ u else msg_nothing_to_delete) (Str []))"
  proof (cases "paused p")
    case True
    then show ?thesis
      using undo_phrase_fixed [OF u] undo_phrase_not_earlier [OF u]
      by (simp add: handle_while_paused)
  next
    case False
    then show ?thesis using u by (simp add: handle_undo_active)
  qed
  have part1: "?thesis" if act: "\<not> paused (processor s)"
    and nd: "\<not> fst (server_dedup s now (ascii ''hello''))"
  proof -
    let ?h = "deque_append HISTORY_MAX_LEN (history (processor s)) (ascii ''hello'')"
    have ht: "handle_text s now (ascii ''hello'') =
       (s\<lparr>last_msg := ascii ''hello'', last_time := now,
           processor := (processor s)\<lparr>history := ?h\<rparr>\<rparr>,
        [PasteText (ascii ''hello'')], [], None)"
      using act nd by (rule handle_text_hello)
    have p1: "processor s1 = (processor s)\<lparr>history := ?h\<rparr>"
      and lm: "last_msg s1 = ascii ''hello''"
      using s1 ht by simp_all
    have hl: "?h \<noteq> []" "last ?h = ascii ''hello''"
      by (simp_all add: deque_append_last deque_append_not_Nil HISTORY_MAX_LEN_def)
    have bl: "butlast ?h = (if HISTORY_MAX_LEN \<le> length (history (processor s))
               then tl (history (processor s)) else history (processor s))"
      by (simp add: deque_append_butlast HISTORY_MAX_LEN_def)
    have act1: "\<not> paused (processor s1)" using p1 act by simp
    have len: "int (length (ascii ''hello'')) = 5" by (simp add: ascii_def)
    have hu: "handle (processor s1) u =
          Inr ((processor s1)\<lparr>history := butlast (history (processor s1))\<rparr>,
           CommandResult True (msg_undo @ ascii ''hello'') (Tup ''__BACKSPACE__'' 5))"
      using handle_undo_active [OF act1 u] p1 hl len by simp
    have sd: "server_dedup s1 now' u = (False, s1\<lparr>last_msg := u, last_time := now'\<rparr>)"
      using lm undo_phrase_not_earlier [OF u] by (auto simp: server_dedup_def)
    have htu: "handle_text s1 now' u =
        (s1\<lparr>last_msg := u, last_time := now',
            processor := (processor s1)\<lparr>history := butlast (history (processor s1))\<rparr>\<rparr>,
         [KeyBackspace 5], [], None)"
      using undo_phrase_fixed [OF u] undo_phrase_not_earlier [OF u]
      by (simp add: handle_text_def Let_def sd hu inject_result_def CommandResult_def
          execute_output_def backspace_def)
    have notin: "ascii ''hello'' \<notin> set (history (processor s)) \<longrightarrow>
           ascii ''hello'' \<notin> set (butlast ?h)"
      unfolding bl by (auto dest: in_set_tl)
    show ?thesis
      using part2 ht hu htu hl bl notin p1 s1 by (simp add: injected_def)
  qed
  show ?thesis
  proof (cases "\<not> paused (processor s) \<and> \<not> fst (server_dedup s now (ascii ''hello''))")
    case True
    then show ?thesis using part1 by blast
  next
    case False
    then show ?thesis using part2 by blast
  qed
qed

theorem C3_undo_witness:
  "injected (handle_text init_service 100 (ascii ''hello'')) = [PasteText (ascii ''hello'')]
   \<and> handle (processor (fst (handle_text init_service 100 (ascii ''hello''))))
        [21024, 38500, 19978, 19968, 21477]
      = Inr (init_processor,
         CommandResult True (msg_undo @ ascii ''hello'') (Tup ''__BACKSPACE__'' 5))
   \<and> handle init_processor [21024, 38500, 19978, 19968, 21477]
      = Inr (init_processor, CommandResult True msg_nothing_to_delete (Str []))"
proof -
  have u: "[21024, 38500, 19978, 19968, 21477] \<in> set undo_phrases"
    by (simp add: undo_phrases_def)
  have act: "\<not> paused (processor init_service)"
    by (simp add: init_service_def init_processor_def)
  have nd: "\<not> fst (server_dedup init_service 100 (ascii ''hello''))"
    by (simp add: server_dedup_def init_service_def ascii_def)
  have h0: "history (processor init_service) = []" "history init_processor = []"
    "\<not> paused init_processor"
    by (simp_all add: init_service_def init_processor_def)
  have bl: "(processor (fst (handle_text init_service 100 (ascii ''hello''))))
              \<lparr>history := []\<rparr> = init_processor"
    using handle_text_hello [OF act nd] by (simp add: init_service_def init_processor_def)
  from C3_undo [OF refl u, of init_service 100 101 init_processor] act nd h0 bl
  show ?thesis
    by (simp add: HISTORY_MAX_LEN_def deque_append_def)
qed

text \<open>
  The claim as it was stated promises the warning in every state with an empty history.
  In the Paused state the pause gate answers first, with the echo of the text.
\<close>

theorem C3_counterexample:
  "history \<lparr>paused = True, history = []\<rparr> = []
   \<and> [21024, 38500, 19978, 19968, 21477] \<in> set undo_phrases
   \<and> handle \<lparr>paused = True, history = []\<rparr> [21024, 38500, 19978, 19968, 21477]
       = Inr (\<lparr>paused = True, history = []\<rparr>,
              CommandResult True (msg_while_paused @ [21024, 38500, 19978, 19968, 21477]) (Str []))
   \<and> msg_while_paused @ [21024, 38500, 19978, 19968, 21477] \<noteq> msg_nothing_to_delete"
  by (simp add: handle_def Let_def eval_norm phrase_defs CommandResult_def msg_while_paused_def
      msg_nothing_to_delete_def)

section \<open>The history\<close>

lemma history_ok_iff:
  "history_ok h \<longleftrightarrow> length h \<le> 300 \<and> (\<forall>e\<in>set h. length e \<le> 4000)"
  by (simp add: history_ok_def HISTORY_MAX_LEN_def list_all_iff)

lemma history_ok_tl: "history_ok h \<Longrightarrow> history_ok (tl h)"
  by (cases h) (auto simp: history_ok_def)

lemma history_ok_butlast: "history_ok h \<Longrightarrow> history_ok (butlast h)"
  by (auto simp: history_ok_iff dest: in_set_butlastD)

lemma history_ok_deque_append:
  "history_ok h \<Longrightarrow> length x \<le> 4000 \<Longrightarrow> history_ok (deque_append HISTORY_MAX_LEN h x)"
  by (cases h) (auto simp: history_ok_def deque_append_def Let_def)

lemma history_ok_record_output:
  "history_ok (history p) \<Longrightarrow> history_ok (history (record_output p out))"
  by (simp add: record_output_def history_ok_deque_append)

lemma handle_history:
  "handle p t = Inr (p', r) \<Longrightarrow> history p' = history p \<or> history p' = butlast (history p)"
  by (auto simp: handle_def Let_def split: option.splits sum.splits if_splits)

lemma history_ok_handle:
  "history_ok (history p) \<Longrightarrow>
   history_ok (history (case handle p t of Inl e \<Rightarrow> p | Inr (p', r) \<Rightarrow> p'))"
  by (auto simp: history_ok_butlast split: sum.splits dest: handle_history)

lemma inject_result_history:
  "history (fst (inject_result p r)) = history p
   \<or> (\<exists>x. history (fst (inject_result p r)) = history (record_output p x))"
  by (auto simp: inject_result_def split: py_object.splits)

lemma history_ok_inject_result:
  "history_ok (history p) \<Longrightarrow> history_ok (history (fst (inject_result p r)))"
  using inject_result_history [of p r] by (auto simp: history_ok_record_output)

lemma interp_step_processor:
  "fst (interp_step p t)
     = (case handle p t of Inl e \<Rightarrow> p | Inr (p', r) \<Rightarrow> fst (inject_result p' r))"
  by (simp add: interp_step_def case_prod_beta split: sum.splits)

lemma history_ok_interp_step:
  "history_ok (history p) \<Longrightarrow> history_ok (history (fst (interp_step p t)))"
  using history_ok_handle [of p t]
  by (auto simp: interp_step_processor history_ok_inject_result split: sum.splits)

lemma handle_text_processor:
  "processor (fst (handle_text s now raw)) = processor s
   \<or> processor (fst (handle_text s now raw)) = fst (interp_step (processor s) (strip raw))"
  by (auto simp: handle_text_def Let_def server_dedup_def interp_step_def
      split: prod.splits if_splits sum.splits)

lemma history_ok_handle_text:
  "history_ok (history (processor s)) \<Longrightarrow>
   history_ok (history (processor (fst (handle_text s now raw))))"
  using handle_text_processor [of s now raw] by (auto simp: history_ok_interp_step)

lemma foldl_deque_append:
  "length h \<le> n \<Longrightarrow> foldl (deque_append n) h ys = drop (length (h @ ys) - n) (h @ ys)"
proof (induction ys arbitrary: h)
  case Nil
  then show ?case by simp
next
  case (Cons y ys)
  note IH = Cons.IH
  show ?case
  proof (cases "length h < n")
    case True
    then have "deque_append n h y = h @ [y]" by (simp add: deque_append_def Let_def)
    moreover have "length (h @ [y]) \<le> n" using True by simp
    ultimately show ?thesis using IH [of "h @ [y]"] by simp
  next
    case False
    with Cons.prems have eq: "length h = n" by simp
    show ?thesis
    proof (cases h)
      case Nil
      with eq have "n = 0" by simp
      with Nil IH [of "[]"] show ?thesis by (simp add: deque_append_def Let_def)
    next
      case (Cons a h')
      with eq have n: "n = Suc (length h')" by simp
      have da: "deque_append n h y = h' @ [y]"
        using Cons n by (simp add: deque_append_def Let_def)
      have "length (h' @ [y]) \<le> n" using n by simp
      from IH [OF this] have "foldl (deque_append n) (h' @ [y]) ys = drop (length ys) (h' @ y # ys)"
        using n by simp
      then show ?thesis using Cons n da by simp
    qed
  qed
qed

lemma foldl_record_output:
  "\<forall>x\<in>set xs. x \<noteq> [] \<and> x \<noteq> [10] \<Longrightarrow>
   history (foldl record_output p xs)
     = foldl (deque_append HISTORY_MAX_LEN) (history p) (map (take 4000) xs)"
  by (induction xs arbitrary: p) (auto simp: record_output_def)

text \<open>
  C4. The history holds at most 300 entries, each at most 4000 characters long. The
  invariant holds for the new processor and is kept by every operation that touches the
  history: \<open>record_output\<close> (the push), \<open>handle\<close> (the pop of the undo command; a call
  that raises leaves the processor as it was), the dispatch of a result, and so by every
  call of \<open>handle_text\<close>, returned or raised. Pushing 301 strings onto
  the empty deque leaves the last 300 in their order, the first one pushed being the one
  dropped; through \<open>record_output\<close> the same holds for 301 strings that it records (not
  empty, not a bare line break), each cut to 4000 characters. The strings need not be
  distinct.
\<close>

theorem C4_history_bounded:
  "history_ok (history init_processor)
   \<and> (history_ok h \<longleftrightarrow> length h \<le> 300 \<and> (\<forall>e\<in>set h. length e \<le> 4000))
   \<and> (history_ok (history p) \<longrightarrow>
        history_ok (history (record_output p out))
        \<and> history_ok (history (case handle p t of Inl e \<Rightarrow> p | Inr (p', r) \<Rightarrow> p'))
        \<and> history_ok (history (fst (interp_step p t))))
   \<and> (history_ok (history (processor s)) \<longrightarrow>
        history_ok (history (processor (fst (handle_text s now raw)))))
   \<and> (length ys = 301 \<longrightarrow> foldl (deque_append HISTORY_MAX_LEN) [] ys = tl ys)
   \<and> (length xs = 301 \<and> (\<forall>x\<in>set xs. x \<noteq> [] \<and> x \<noteq> [10]) \<longrightarrow>
        history (foldl record_output init_processor xs) = map (take 4000) (tl xs))"
proof -
  have a: "history_ok (history init_processor)"
    by (simp add: history_ok_def init_processor_def)
  have e1: "length ys = 301 \<longrightarrow> foldl (deque_append HISTORY_MAX_LEN) [] ys = tl ys"
    by (simp add: foldl_deque_append HISTORY_MAX_LEN_def drop_Suc)
  have e2: "length xs = 301 \<and> (\<forall>x\<in>set xs. x \<noteq> [] \<and> x \<noteq> [10]) \<longrightarrow>
        history (foldl record_output init_processor xs) = map (take 4000) (tl xs)"
    by (simp add: foldl_record_output foldl_deque_append HISTORY_MAX_LEN_def init_processor_def
        drop_Suc map_tl)
  show ?thesis
    using a e1 e2 history_ok_iff [of h] history_ok_record_output [of p out]
      history_ok_handle [of p t] history_ok_interp_step [of p t]
      history_ok_handle_text [of s now raw]
    by blast
qed

theorem C4_history_bounded_witness:
  "history (foldl record_output init_processor (map (\<lambda>i. [65 + i]) [0..<301]))
     = map (\<lambda>i. [65 + i]) [1..<301]
   \<and> history_ok (history (record_output \<lparr>paused = False, history = [ [65] ]\<rparr> [66]))"
proof -
  let ?xs = "map (\<lambda>i. [65 + i]) [0..<301] :: ustr list"
  have len: "length ?xs = 301" by simp
  have rec: "\<forall>x\<in>set ?xs. x \<noteq> [] \<and> x \<noteq> [10]" by auto
  have tl: "map (take 4000) (tl ?xs) = map (\<lambda>i. [65 + i]) [1..<301]"
    by (simp add: map_tl upt_conv_Cons [of 0 301])
  have ok: "history_ok (history \<lparr>paused = False, history = [ [65] ]\<rparr>)"
    by (simp add: history_ok_def HISTORY_MAX_LEN_def)
  from C4_history_bounded [of _ "\<lparr>paused = False, history = [ [65] ]\<rparr>" "[66]" _ _ _ _ _ ?xs]
    len rec ok
  have "history (foldl record_output init_processor ?xs) = map (take 4000) (tl ?xs)"
    and "history_ok (history (record_output \<lparr>paused = False, history = [ [65] ]\<rparr> [66]))"
    by blast+
  with tl show ?thesis by simp
qed


section \<open>Recording\<close>

lemma strip_hd_not_space:
  assumes "strip s \<noteq> []"
  shows "\<not> is_space (hd (strip s))"
proof -
  let ?d = "dropWhile is_space s"
  let ?e = "dropWhile is_space (rev ?d)"
  have e: "?e \<noteq> []" using assms by (simp add: strip_def)
  have d: "?d \<noteq> []"
  proof
    assume "?d = []"
    then have "?e = []" by (simp only: rev.simps dropWhile.simps)
    with e show False by blast
  qed
  have "rev (takeWhile is_space (rev ?d) @ ?e) = rev (rev ?d)"
    by (simp only: takeWhile_dropWhile_id)
  then have "rev ?e @ rev (takeWhile is_space (rev ?d)) = ?d"
    by (simp only: rev_append rev_rev_ident)
  then have "hd ?d = hd (rev ?e @ rev (takeWhile is_space (rev ?d)))"
    by (simp only:)
  also have "\<dots> = hd (rev ?e)" using e by simp
  finally have "hd (strip s) = hd ?d" by (simp add: strip_def)
  moreover have "\<not> is_space (hd ?d)" using d by (rule hd_dropWhile)
  ultimately show ?thesis by simp
qed

lemma is_space_newline: "is_space 10"
  by (simp add: is_space_def whitespace_table_def)

lemma strip_not_newline: "strip s \<noteq> [10]"
  using strip_hd_not_space [of s] is_space_newline by (cases "strip s = []") auto

lemma handle_unhandled:
  assumes "handle p t = Inr (p1, r)" "\<not> handled r"
  shows "p1 = p \<and> r = CommandResult False t (Str t)"
  using assms
  by (auto simp: handle_def Let_def CommandResult_def split: if_splits option.splits sum.splits)

text \<open>
  C5 (as amended). Take a call of \<open>handle_text\<close> that passes the dedup gate with a text
  that is not the diagnostic sentinel. When the processor's result is unhandled (free
  text), its output is the trimmed text itself, that text is injected, and it is pushed
  onto the history, cut to 4000 characters (a trimmed text is never empty and never a
  bare line break). When the result is a handled one, the history is the one \<open>handle\<close>
  left: a string output such as a punctuation symbol is injected and not recorded. When
  \<open>handle\<close> raises instead of returning a result, the call raises the same error, injects
  nothing and records nothing.
\<close>

theorem C5_recording:
  assumes nonempty: "strip raw \<noteq> []"
    and fresh: "\<not> fst (server_dedup s now (strip raw))"
    and nosent: "strip raw \<noteq> TEST_INJECT_SENTINEL"
  shows "(handle (processor s) (strip raw) = Inr (p1, r) \<longrightarrow>
          (\<not> handled r \<longrightarrow>
            output_obj r = Str (strip raw)
          \<and> injected (handle_text s now raw) = [PasteText (strip raw)]
          \<and> history (processor (fst (handle_text s now raw)))
              = deque_append HISTORY_MAX_LEN (history (processor s)) (take 4000 (strip raw)))
       \<and> (handled r \<longrightarrow>
            history (processor (fst (handle_text s now raw))) = history p1
          \<and> (\<forall>x. output_obj r = Str x \<longrightarrow> injected (handle_text s now raw) = send_unicode_text x)))
     \<and> (handle (processor s) (strip raw) = Inl e \<longrightarrow>
          raised (handle_text s now raw) = Some e
        \<and> injected (handle_text s now raw) = []
        \<and> processor (fst (handle_text s now raw)) = processor s)"
proof (intro conjI impI)
  have sd: "server_dedup s now (strip raw)
              = (False, s\<lparr>last_msg := strip raw, last_time := now\<rparr>)"
    using fresh by (simp add: server_dedup_def split: if_splits)
  {
    assume h: "handle (processor s) (strip raw) = Inl e"
    have ht: "handle_text s now raw
                = (s\<lparr>last_msg := strip raw, last_time := now\<rparr>, [], [], Some e)"
      using nonempty nosent h by (simp add: handle_text_def Let_def sd)
    show "raised (handle_text s now raw) = Some e" by (simp add: ht raised_def)
    show "injected (handle_text s now raw) = []" by (simp add: ht injected_def)
    show "processor (fst (handle_text s now raw)) = processor s" by (simp add: ht)
  }
  assume h: "handle (processor s) (strip raw) = Inr (p1, r)"
  have ht: "handle_text s now raw =
      (case inject_result p1 r of
         (p2, events, notes) \<Rightarrow>
           (s\<lparr>last_msg := strip raw, last_time := now, processor := p2\<rparr>, events, notes, None))"
    using nonempty nosent h by (simp add: handle_text_def Let_def sd)
  {
    assume nh: "\<not> handled r"
    with h have r: "p1 = processor s" "r = CommandResult False (strip raw) (Str (strip raw))"
      using handle_unhandled by blast+
    have tk: "(if 4000 < length (strip raw) then take 4000 (strip raw) else strip raw)
                = take 4000 (strip raw)"
      by simp
    have all: "output_obj r = Str (strip raw)
          \<and> injected (handle_text s now raw) = [PasteText (strip raw)]
          \<and> history (processor (fst (handle_text s now raw)))
              = deque_append HISTORY_MAX_LEN (history (processor s)) (take 4000 (strip raw))"
      using nonempty strip_not_newline [of raw] unfolding ht r
      by (simp add: inject_result_def CommandResult_def record_output_def tk injected_def
          execute_output_def send_unicode_text_def focus_target_def del: take_all_iff)
    show "output_obj r = Str (strip raw)" using all by blast
    show "injected (handle_text s now raw) = [PasteText (strip raw)]" using all by blast
    show "history (processor (fst (handle_text s now raw)))
              = deque_append HISTORY_MAX_LEN (history (processor s)) (take 4000 (strip raw))"
      using all by blast
  }
  assume hd: "handled r"
  then show "history (processor (fst (handle_text s now raw))) = history p1" unfolding ht
    by (auto simp: inject_result_def injected_def execute_output_def send_unicode_text_def
        focus_target_def split: py_object.splits)
  from hd show "\<forall>x. output_obj r = Str x \<longrightarrow> injected (handle_text s now raw) = send_unicode_text x"
    unfolding ht
    by (auto simp: inject_result_def injected_def execute_output_def send_unicode_text_def
        focus_target_def split: py_object.splits)
qed

theorem C5_recording_witness:
  "injected (handle_text init_service 100 ([32] @ ascii ''hello'' @ [10]))
     = [PasteText (ascii ''hello'')]
   \<and> history (processor (fst (handle_text init_service 100 ([32] @ ascii ''hello'' @ [10]))))
     = [ascii ''hello'']"
proof -
  let ?raw = "[32] @ ascii ''hello'' @ [10]"
  have st: "strip ?raw = ascii ''hello''"
    by (simp add: strip_def is_space_def whitespace_table_def ascii_def)
  have ne: "strip ?raw \<noteq> []" "strip ?raw \<noteq> TEST_INJECT_SENTINEL"
    unfolding st by (simp_all add: ascii_def TEST_INJECT_SENTINEL_def)
  have fresh: "\<not> fst (server_dedup init_service 100 (strip ?raw))"
    unfolding st by (simp add: server_dedup_def init_service_def ascii_def)
  have h: "handle (processor init_service) (strip ?raw)
             = Inr (init_processor, CommandResult False (ascii ''hello'') (Str (ascii ''hello'')))"
    unfolding st by (simp add: handle_hello init_service_def init_processor_def)
  have nh: "\<not> handled (CommandResult False (ascii ''hello'') (Str (ascii ''hello'')))"
    by (simp add: CommandResult_def)
  from C5_recording [OF ne(1) fresh ne(2), of init_processor
      "CommandResult False (ascii ''hello'') (Str (ascii ''hello''))"] h nh
  show ?thesis
    unfolding st
    by (simp add: init_service_def init_processor_def deque_append_def HISTORY_MAX_LEN_def
        ascii_def)
qed

text \<open>
  The claim as it was stated counts the symbols of the punctuation lookup among the
  recorded strings. The word U+9017 U+53F7 ("comma") is injected as the symbol U+FF0C,
  which is neither empty nor a line break, and the history stays empty: the result is a
  handled one, and \<open>handle_text\<close> records unhandled results only.
\<close>

theorem C5_counterexample:
  "injected (handle_text init_service 100 [36887, 21495]) = [PasteText [65292] ]
   \<and> [65292] \<noteq> ([] :: ustr) \<and> [65292] \<noteq> ([10] :: ustr)
   \<and> history (processor (fst (handle_text init_service 100 [36887, 21495]))) = []"
  by (simp add: handle_text_def Let_def strip_def is_space_def whitespace_table_def
      server_dedup_def init_service_def init_processor_def SERVER_DEDUP_WINDOW_SEC_def
      TEST_INJECT_SENTINEL_def ascii_def handle_def norm_samples phrase_defs punc_map_def
      inject_result_def CommandResult_def injected_def execute_output_def send_unicode_text_def
      focus_target_def)


section \<open>The dedup gate\<close>

lemma server_dedup_fresh:
  "\<not> fst (server_dedup s now t) \<Longrightarrow>
   server_dedup s now t = (False, s\<lparr>last_msg := t, last_time := now\<rparr>)"
  by (simp add: server_dedup_def split: if_splits)

lemma handle_text_slot:
  assumes "strip raw \<noteq> []" "\<not> fst (server_dedup s now (strip raw))"
  shows "last_msg (fst (handle_text s now raw)) = strip raw
         \<and> last_time (fst (handle_text s now raw)) = now"
  using assms
  by (simp add: handle_text_def Let_def server_dedup_fresh split: prod.splits sum.splits)

text \<open>
  C6 (as amended). The dedup check reports a duplicate exactly when the text equals the
  stored one and less than 1.2 seconds have passed since the stored time. A call that
  reports no duplicate stores the current text and time in the slot. A call that reports
  a duplicate leaves the whole state as it was: the stored text is the current text
  already, and the stored time is not refreshed.
\<close>

theorem C6_dedup_slot:
  "(\<not> fst (server_dedup s now t) \<longrightarrow>
      snd (server_dedup s now t) = s\<lparr>last_msg := t, last_time := now\<rparr>)
   \<and> (fst (server_dedup s now t) \<longrightarrow>
      snd (server_dedup s now t) = s \<and> last_msg s = t
      \<and> now - last_time s < SERVER_DEDUP_WINDOW_SEC)
   \<and> (fst (server_dedup s now t) \<longleftrightarrow>
       t = last_msg s \<and> now - last_time s < SERVER_DEDUP_WINDOW_SEC)"
  by (simp add: server_dedup_def)

theorem C6_dedup_slot_witness:
  "snd (server_dedup init_service 100 [97]) = init_service\<lparr>last_msg := [97], last_time := 100\<rparr>
   \<and> fst (server_dedup (init_service\<lparr>last_msg := [97], last_time := 100\<rparr>) 101 [97])
   \<and> snd (server_dedup (init_service\<lparr>last_msg := [97], last_time := 100\<rparr>) 101 [97])
       = init_service\<lparr>last_msg := [97], last_time := 100\<rparr>"
  using C6_dedup_slot [of init_service 100 "[97]"]
    C6_dedup_slot [of "init_service\<lparr>last_msg := [97], last_time := 100\<rparr>" 101 "[97]"]
  by (simp add: init_service_def SERVER_DEDUP_WINDOW_SEC_def)

text \<open>
  The claim as it was stated has the slot updated on every call. A duplicate one second
  after the stored message is reported and the stored time stays at 100.
\<close>

theorem C6_counterexample:
  "fst (server_dedup (init_service\<lparr>last_msg := [97], last_time := 100\<rparr>) 101 [97])
   \<and> last_time (snd (server_dedup (init_service\<lparr>last_msg := [97], last_time := 100\<rparr>) 101 [97]))
       \<noteq> 101"
  by (simp add: server_dedup_def init_service_def SERVER_DEDUP_WINDOW_SEC_def)

text \<open>
  C1 (as amended). When the first of two calls with the same text is not itself
  suppressed by the dedup gate, and less than 1.2 seconds lie between the two clock
  readings, the second call returns at the gate: no injector call, no notification,
  nothing raised, and the state of the service (processor and dedup slot) is what the
  first call left, whether the first call returned or raised after it wrote the slot.
\<close>

theorem C1_dedup_suppresses:
  assumes first_passes: "\<not> fst (server_dedup s now1 (strip raw))"
    and within: "now2 - now1 < SERVER_DEDUP_WINDOW_SEC"
  shows "handle_text (fst (handle_text s now1 raw)) now2 raw
           = (fst (handle_text s now1 raw), [], [], None)"
proof (cases "strip raw = []")
  case True
  then show ?thesis by (simp add: handle_text_def)
next
  case False
  let ?s1 = "fst (handle_text s now1 raw)"
  have slot: "last_msg ?s1 = strip raw" "last_time ?s1 = now1"
    using handle_text_slot [OF False first_passes] by simp_all
  have "server_dedup ?s1 now2 (strip raw) = (True, ?s1)"
    using slot within by (simp add: server_dedup_def)
  then show ?thesis using False by (simp add: handle_text_def Let_def)
qed

theorem C1_dedup_suppresses_witness:
  "injected (handle_text init_service 100 (ascii ''hello'')) = [PasteText (ascii ''hello'')]
   \<and> handle_text (fst (handle_text init_service 100 (ascii ''hello''))) 101 (ascii ''hello'')
       = (fst (handle_text init_service 100 (ascii ''hello'')), [], [], None)"
proof -
  have st: "strip (ascii ''hello'') = ascii ''hello''"
    by (simp add: strip_def is_space_def whitespace_table_def ascii_def)
  have act: "\<not> paused (processor init_service)"
    by (simp add: init_service_def init_processor_def)
  have fresh: "\<not> fst (server_dedup init_service 100 (ascii ''hello''))"
    by (simp add: server_dedup_def init_service_def ascii_def)
  have within: "(101::real) - 100 < SERVER_DEDUP_WINDOW_SEC"
    by (simp add: SERVER_DEDUP_WINDOW_SEC_def)
  have fresh': "\<not> fst (server_dedup init_service 100 (strip (ascii ''hello'')))"
    unfolding st by (rule fresh)
  from C1_dedup_suppresses [OF fresh' within] handle_text_hello [OF act fresh]
  show ?thesis by (simp add: injected_def)
qed

text \<open>
  The claim as it was stated holds for every two calls. Three calls with the same text at
  100, 101 and 102 seconds: the second is suppressed and leaves the stored time at 100,
  so the third, one second after the second, is two seconds from the stored time; it
  is injected and recorded.
\<close>

theorem C1_counterexample:
  "(102::real) - 101 < SERVER_DEDUP_WINDOW_SEC
   \<and> injected (handle_text
        (fst (handle_text (fst (handle_text init_service 100 (ascii ''hello''))) 101
               (ascii ''hello''))) 102 (ascii ''hello''))
       = [PasteText (ascii ''hello'')]
   \<and> history (processor (fst (handle_text
        (fst (handle_text (fst (handle_text init_service 100 (ascii ''hello''))) 101
               (ascii ''hello''))) 102 (ascii ''hello''))))
       = [ascii ''hello'', ascii ''hello'']
   \<and> history (processor
        (fst (handle_text (fst (handle_text init_service 100 (ascii ''hello''))) 101
               (ascii ''hello''))))
       = [ascii ''hello'']"
proof -
  let ?h = "ascii ''hello''"
  let ?s1 = "init_service\<lparr>last_msg := ?h, last_time := 100,
     processor := (processor init_service)\<lparr>history := [?h]\<rparr>\<rparr>"
  have st: "strip ?h = ?h"
    by (simp add: strip_def is_space_def whitespace_table_def ascii_def)
  have act: "\<not> paused (processor init_service)"
    by (simp add: init_service_def init_processor_def)
  have fresh: "\<not> fst (server_dedup init_service 100 ?h)"
    by (simp add: server_dedup_def init_service_def ascii_def)
  have c1: "handle_text init_service 100 ?h = (?s1, [PasteText ?h], [], None)"
    using handle_text_hello [OF act fresh]
    by (simp add: init_service_def init_processor_def deque_append_def HISTORY_MAX_LEN_def)
  have ne: "?h \<noteq> []" by (simp add: ascii_def)
  have d2: "server_dedup ?s1 101 ?h = (True, ?s1)"
    by (simp add: server_dedup_def SERVER_DEDUP_WINDOW_SEC_def)
  have c2: "handle_text ?s1 101 ?h = (?s1, [], [], None)"
    using ne by (simp add: handle_text_def Let_def st d2)
  have act1: "\<not> paused (processor ?s1)"
    by (simp add: init_service_def init_processor_def)
  have fresh1: "\<not> fst (server_dedup ?s1 102 ?h)"
    by (simp add: server_dedup_def SERVER_DEDUP_WINDOW_SEC_def)
  have c3: "handle_text ?s1 102 ?h =
      (?s1\<lparr>last_msg := ?h, last_time := 102,
           processor := (processor ?s1)\<lparr>history := [?h, ?h]\<rparr>\<rparr>, [PasteText ?h], [], None)"
    using handle_text_hello [OF act1 fresh1]
    by (simp add: init_service_def init_processor_def deque_append_def HISTORY_MAX_LEN_def)
  show ?thesis
    by (simp add: c1 c2 c3 injected_def SERVER_DEDUP_WINDOW_SEC_def)
qed


section \<open>Repeated texts outside the window\<close>







text \<open>
  The condition on the count cannot be dropped. The keyword U+5220 U+9664 followed by
  4301 digits \<open>1\<close> is a frame like any other; the call writes the dedup slot, then
  \<open>int\<close> refuses the digits, and the call raises before any injector is called.
\<close>

lemma handle_text_unreadable_count:
  assumes "\<not> paused (processor s)"
    and "\<not> fst (server_dedup s now (kw_delete @ replicate 4301 49))"
  shows "handle_text s now (kw_delete @ replicate 4301 49)
           = (s\<lparr>last_msg := kw_delete @ replicate 4301 49, last_time := now\<rparr>, [], [],
              Some (int_limit_error 4301))"
proof -
  let ?t = "kw_delete @ replicate 4301 49"
  have ns: "\<forall>c\<in>set ?t. \<not> is_space c"
    by (auto simp: kw_delete_def is_space_def whitespace_table_def)
  have st: "strip ?t = ?t" using ns by (rule strip_no_space)
  have ne: "?t \<noteq> []" by (simp add: kw_delete_def)
  have "length ?t \<noteq> length TEST_INJECT_SENTINEL"
    by (simp add: kw_delete_def TEST_INJECT_SENTINEL_def ascii_def)
  then have nosent: "?t \<noteq> TEST_INJECT_SENTINEL" by (rule contrapos_nn) (simp only:)
  have big: "MAX_STR_DIGITS < 4301" by (simp add: MAX_STR_DIGITS_def)
  have h: "handle (processor s) ?t = Inl (int_limit_error 4301)"
    using assms(1) big by (rule handle_delete_ones)
  show ?thesis
    unfolding handle_text_def Let_def st
    using ne nosent by (simp add: server_dedup_fresh [OF assms(2)] h)
qed



section \<open>The command execution channel\<close>

lemmas eval_shlex = shlex_split_def shlex_whitespace_def shlex_quotes_def emit_token_def ascii_def

text \<open>The tokenizer on a command with a quoted argument, and on one with an open quote.\<close>

lemma shlex_split_example:
  "shlex_split (ascii ''say '' @ [39] @ ascii ''x y'' @ [39] @ ascii '' z'')
     = Inr [ascii ''say'', [39] @ ascii ''x y'' @ [39], ascii ''z'']"
  by (simp add: eval_shlex)

lemma shlex_split_unbalanced:
  "shlex_split (ascii ''say '' @ 34 # ascii ''hi'') = Inl (ValueError ''No closing quotation'')"
  by (simp add: eval_shlex)

text \<open>
  C9. The claim is that \<open>execute_command\<close> never throws outward and reports every failure
  as an outcome with \<open>ok = False\<close>. The code calls \<open>_build_command_args\<close> before its
  \<open>try\<close> block, so an exception of the tokenizer leaves \<open>execute_command\<close>: for the
  configured command whose \<open>command\<close> string is \<open>say "hi\<close> (the quote never closed) and the
  matching text \<open>x\<close>, the result is the \<open>ValueError\<close> of \<open>shlex.split\<close>, whatever the
  process runner would do.
\<close>

theorem C9_tokenizer_raises:
  "execute_command run
     [\<lparr>cmd_match_string = Some (ascii ''x''),
       cmd_command = CmdStr (ascii ''say '' @ [34] @ ascii ''hi''),
       cmd_args = None\<rparr>]
     (ascii ''x'')
   = Inl (ValueError ''No closing quotation'')"
proof -
  have st: "strip (ascii ''x'') = ascii ''x''" "ascii ''x'' \<noteq> []"
    by (simp_all add: strip_def is_space_def whitespace_table_def ascii_def)
  have sc: "strip (ascii ''say '' @ 34 # ascii ''hi'') \<noteq> []"
    by (simp add: strip_def is_space_def whitespace_table_def ascii_def)
  show ?thesis
    using st sc
    by (simp add: execute_command_def match_command_def Let_def build_command_args_def
        shlex_split_unbalanced)
qed

text \<open>
  Where the tokenizer returns, the four outcomes are as the claim lists them: no match,
  empty argument vector, a completed process with \<open>ok\<close> equal to "return code is 0", and
  a launch exception reported with its text. The tokenizer's exception is the only way
  out of \<open>execute_command\<close> other than a result.
\<close>

lemma execute_command_outcomes:
  "(match_command text commands = None \<longrightarrow>
      execute_command run commands text
        = Inr (CommandResult True (msg_no_match @ [65306] @ text) (Dict False msg_no_match)))
   \<and> (match_command text commands = Some cmd
        \<and> build_command_args (cmd_command cmd) (cmd_args cmd) = Inr [] \<longrightarrow>
      execute_command run commands text
        = Inr (CommandResult True (msg_misconfigured @ [65306] @ text)
                 (Dict False msg_misconfigured)))
   \<and> (match_command text commands = Some cmd
        \<and> build_command_args (cmd_command cmd) (cmd_args cmd) = Inr args \<and> args \<noteq> []
        \<and> run args = Completed returncode err \<longrightarrow>
      (\<exists>msg. execute_command run commands text
                = Inr (CommandResult True msg (Dict (returncode = 0) msg))))
   \<and> (match_command text commands = Some cmd
        \<and> build_command_args (cmd_command cmd) (cmd_args cmd) = Inr args \<and> args \<noteq> []
        \<and> run args = Raised e \<longrightarrow>
      execute_command run commands text
        = Inr (CommandResult True (msg_cmd_raised @ text @ ascii '' - '' @ e)
                 (Dict False (msg_cmd_raised @ e))))"
  by (auto simp: execute_command_def Let_def)

lemma execute_command_raises_iff:
  "execute_command run commands text = Inl err \<longleftrightarrow>
     (\<exists>cmd c. match_command text commands = Some cmd \<and> cmd_command cmd = CmdStr c
        \<and> strip c \<noteq> [] \<and> shlex_split c = Inl err)"
  by (auto simp: execute_command_def build_command_args_def Let_def
      split: option.splits sum.splits command_field.splits run_result.splits if_splits)


end
